theory Spec2Isabelle
  imports Main "HOL-Library.AList"
begin

unbundle bit_operations_syntax

text \<open>
  The configuration loader of the backend: \<open>loadDotEnvFiles\<close> writes the local override
  files into the process environment, and \<open>LoadConfig\<close> collects the variables under the
  prefix \<open>TASKER_\<close>, populates the \<open>Config\<close> struct from them, validates it, fills in
  the optional sections and normalizes the address of the cache. The functions of the
  Go standard library, of \<open>koanf\<close>, of \<open>mapstructure\<close> and of \<open>validator\<close> that the code
  calls are written out as far as the code uses them, for a Unix process with 64-bit
  \<open>int\<close>.
\<close>

section \<open>Go strings and the functions of package strings that the configuration code calls\<close>

text \<open>
  A Go string is a sequence of bytes, so it is a \<^typ>\<open>string\<close> here: a list of
  \<^typ>\<open>char\<close>, each one byte. \<open>len(s)\<close> is \<^term>\<open>length s\<close>, \<open>s[i:j]\<close> is
  \<^term>\<open>take (j - i) (drop i s)\<close>.
\<close>

definition HasPrefix :: "string \<Rightarrow> string \<Rightarrow> bool" where
  "HasPrefix s prefix = (length prefix \<le> length s \<and> take (length prefix) s = prefix)"

definition HasSuffix :: "string \<Rightarrow> string \<Rightarrow> bool" where
  "HasSuffix s suffix =
     (length suffix \<le> length s \<and> drop (length s - length suffix) s = suffix)"

definition TrimPrefix :: "string \<Rightarrow> string \<Rightarrow> string" where
  "TrimPrefix s prefix = (if HasPrefix s prefix then drop (length prefix) s else s)"

text \<open>
  \<open>strings.TrimSpace\<close> removes leading and trailing runes for which \<open>unicode.IsSpace\<close>
  holds. These runes are U+0009 to U+000D, U+0020, U+0085, U+00A0, U+1680, U+2000 to
  U+200A, U+2028, U+2029, U+202F, U+205F and U+3000. On bytes: the rune decoded at the
  front (\<open>utf8.DecodeRuneInString\<close>) or at the back (\<open>utf8.DecodeLastRuneInString\<close>) of
  a string is one of them exactly when the string begins, respectively ends, with the
  UTF-8 encoding of that rune, which is what \<open>whiteSpace\<close> lists.
\<close>

definition whiteSpace :: "string list" where
  "whiteSpace =
    [[CHR 0x09], [CHR 0x0A], [CHR 0x0B], [CHR 0x0C], [CHR 0x0D], [CHR 0x20],
     [CHR 0xC2, CHR 0x85], [CHR 0xC2, CHR 0xA0],
     [CHR 0xE1, CHR 0x9A, CHR 0x80],
     [CHR 0xE2, CHR 0x80, CHR 0x80], [CHR 0xE2, CHR 0x80, CHR 0x81],
     [CHR 0xE2, CHR 0x80, CHR 0x82], [CHR 0xE2, CHR 0x80, CHR 0x83],
     [CHR 0xE2, CHR 0x80, CHR 0x84], [CHR 0xE2, CHR 0x80, CHR 0x85],
     [CHR 0xE2, CHR 0x80, CHR 0x86], [CHR 0xE2, CHR 0x80, CHR 0x87],
     [CHR 0xE2, CHR 0x80, CHR 0x88], [CHR 0xE2, CHR 0x80, CHR 0x89],
     [CHR 0xE2, CHR 0x80, CHR 0x8A],
     [CHR 0xE2, CHR 0x80, CHR 0xA8], [CHR 0xE2, CHR 0x80, CHR 0xA9],
     [CHR 0xE2, CHR 0x80, CHR 0xAF],
     [CHR 0xE2, CHR 0x81, CHR 0x9F],
     [CHR 0xE3, CHR 0x80, CHR 0x80]]"

text \<open>The width in bytes of the white-space rune a string begins with; 0 when it begins
  with none.\<close>

definition spaceWidth :: "string \<Rightarrow> nat" where
  "spaceWidth s = (case find (HasPrefix s) whiteSpace of None \<Rightarrow> 0 | Some e \<Rightarrow> length e)"

text \<open>The same for the rune a string ends with.\<close>

definition lastSpaceWidth :: "string \<Rightarrow> nat" where
  "lastSpaceWidth s = (case find (HasSuffix s) whiteSpace of None \<Rightarrow> 0 | Some e \<Rightarrow> length e)"

lemma whiteSpace_nonempty: "e \<in> set whiteSpace \<Longrightarrow> e \<noteq> []"
  by (auto simp: whiteSpace_def)

lemma spaceWidth_le: "spaceWidth s \<le> length s"
  by (auto simp: spaceWidth_def HasPrefix_def split: option.splits dest: find_Some_iff[THEN iffD1])

lemma lastSpaceWidth_le: "lastSpaceWidth s \<le> length s"
  by (auto simp: lastSpaceWidth_def HasSuffix_def split: option.splits
      dest: find_Some_iff[THEN iffD1])

function TrimLeftSpace :: "string \<Rightarrow> string" where
  "TrimLeftSpace s = (if spaceWidth s = 0 then s else TrimLeftSpace (drop (spaceWidth s) s))"
  by pat_completeness auto
termination
proof (relation "measure length")
  show "wf (measure length)" by simp
next
  fix s :: string
  assume "spaceWidth s \<noteq> 0"
  moreover have "spaceWidth s \<le> length s" by (rule spaceWidth_le)
  ultimately show "(drop (spaceWidth s) s, s) \<in> measure length" by simp
qed

function TrimRightSpace :: "string \<Rightarrow> string" where
  "TrimRightSpace s =
     (if lastSpaceWidth s = 0 then s
      else TrimRightSpace (take (length s - lastSpaceWidth s) s))"
  by pat_completeness auto
termination
proof (relation "measure length")
  show "wf (measure length)" by simp
next
  fix s :: string
  assume "lastSpaceWidth s \<noteq> 0"
  moreover have "lastSpaceWidth s \<le> length s" by (rule lastSpaceWidth_le)
  ultimately show "(take (length s - lastSpaceWidth s) s, s) \<in> measure length" by simp
qed

declare TrimLeftSpace.simps [simp del] TrimRightSpace.simps [simp del]

definition TrimSpace :: "string \<Rightarrow> string" where
  "TrimSpace s = TrimRightSpace (TrimLeftSpace s)"


section \<open>The overlay loader: \<open>loadDotEnvFiles\<close>\<close>

text \<open>
  \<open>strings.SplitN(s, sep, n)\<close> for a separator of one byte and \<open>n \<ge> 0\<close>: at most \<open>n\<close>
  parts, the last one the unsplit rest; no part when \<open>n = 0\<close>.
\<close>

fun SplitN :: "string \<Rightarrow> char \<Rightarrow> nat \<Rightarrow> string list" where
  "SplitN s sep 0 = []"
| "SplitN s sep (Suc 0) = [s]"
| "SplitN s sep (Suc (Suc n)) =
     (if sep \<in> set s
      then takeWhile (\<lambda>c. c \<noteq> sep) s # SplitN (tl (dropWhile (\<lambda>c. c \<noteq> sep) s)) sep (Suc n)
      else [s])"

text \<open>
  The process environment, in the order of \<open>os.Environ()\<close>: one pair for each entry
  \<open>NAME=value\<close>. Go keeps one entry for each name.
\<close>

type_synonym environ = "(string \<times> string) list"

datatype errno = EINVAL

text \<open>
  \<open>os.Setenv\<close> on Unix: refused with \<open>EINVAL\<close> when the key is empty, when the key
  holds \<open>=\<close> or a NUL byte, or when the value holds a NUL byte; otherwise the entry of
  the key is replaced in place, or a new entry is appended.
\<close>

definition Setenv :: "environ \<Rightarrow> string \<Rightarrow> string \<Rightarrow> errno + environ" where
  "Setenv env key val =
     (if key = [] then Inl EINVAL
      else if CHR ''='' \<in> set key \<or> CHR 0x00 \<in> set key then Inl EINVAL
      else if CHR 0x00 \<in> set val then Inl EINVAL
      else Inr (AList.update key val env))"

definition Getenv :: "environ \<Rightarrow> string \<Rightarrow> string option" where
  "Getenv env key = map_of env key"

text \<open>
  \<open>bufio.Scanner\<close> with its default split function \<open>ScanLines\<close> and its default buffer:
  the tokens are the lines of the data without their end-of-line marker (\<open>\n\<close>, with one
  \<open>\r\<close> before it dropped); a last line without \<open>\n\<close> is a token when it is not empty.
  A line of \<open>MaxScanTokenSize\<close> bytes or more does not fit the buffer: \<open>Scan\<close> then
  returns false and the loop over the file ends there.
\<close>

definition MaxScanTokenSize :: int where
  "MaxScanTokenSize = 64 * 1024"

definition dropCR :: "string \<Rightarrow> string" where
  "dropCR data = (if data \<noteq> [] \<and> last data = CHR 0x0D then butlast data else data)"

function scanLines :: "string \<Rightarrow> string list" where
  "scanLines data =
     (if data = [] then []
      else let line = takeWhile (\<lambda>c. c \<noteq> CHR 0x0A) data in
        if MaxScanTokenSize \<le> int (length line) then []
        else dropCR line # scanLines (drop (length line + 1) data))"
  by pat_completeness auto
termination
  by (relation "measure length") auto

declare scanLines.simps [simp del]

text \<open>
  The body of the inner loop of \<open>loadDotEnvFiles\<close>, up to the call of \<open>os.Setenv\<close>:
  \<open>parseLine text\<close> is the key and the value that the line \<open>text = scanner.Text()\<close> sets,
  \<open>None\<close> where the loop continues without setting anything. \<open>CHR 0x22\<close> is the double
  quote, \<open>CHR 0x27\<close> the single quote; \<open>val[1 : len(val)-1]\<close> is
  \<open>take (length val - 1 - 1) (drop 1 val)\<close>.
\<close>

definition parseLine :: "string \<Rightarrow> (string \<times> string) option" where
  "parseLine text =
     (let line = TrimSpace text in
      if line = [] \<or> HasPrefix line ''#'' then None
      else let parts = SplitN line (CHR ''='') 2 in
        if length parts \<noteq> 2 then None
        else let key = TrimSpace (parts ! 0);
                 val = TrimSpace (parts ! 1);
                 val = (if 2 \<le> length val then
                          if (val ! 0 = CHR 0x22 \<and> val ! (length val - 1) = CHR 0x22) \<or>
                             (val ! 0 = CHR 0x27 \<and> val ! (length val - 1) = CHR 0x27)
                          then take (length val - 1 - 1) (drop 1 val)
                          else val
                        else val)
             in Some (key, val))"

text \<open>The inner loop over the lines of one file; the result of \<open>os.Setenv\<close> is discarded.\<close>

fun loadLines :: "environ \<Rightarrow> string list \<Rightarrow> environ" where
  "loadLines env [] = env"
| "loadLines env (text # rest) =
     (case parseLine text of
        None \<Rightarrow> loadLines env rest
      | Some (key, val) \<Rightarrow>
          (case Setenv env key val of
             Inl err \<Rightarrow> loadLines env rest
           | Inr env' \<Rightarrow> loadLines env' rest))"

text \<open>
  The files: \<open>fs p = None\<close> when \<open>os.Open(p)\<close> fails, \<open>fs p = Some data\<close> when it opens a
  file that reads as \<open>data\<close>. \<open>loadDotEnvFiles\<close> always returns a nil error; the model
  returns the process environment it leaves behind.
\<close>

type_synonym files = "string \<Rightarrow> string option"

fun loadDotEnvFiles :: "files \<Rightarrow> environ \<Rightarrow> string list \<Rightarrow> environ" where
  "loadDotEnvFiles fs env [] = env"
| "loadDotEnvFiles fs env (p # paths) =
     (case fs p of
        None \<Rightarrow> loadDotEnvFiles fs env paths
      | Some data \<Rightarrow> loadDotEnvFiles fs (loadLines env (scanLines data)) paths)"


section \<open>The configuration schema\<close>

text \<open>
  The structs of the package as records. A Go \<open>int\<close> is an \<^typ>\<open>int\<close>: the code does no
  arithmetic on these fields, and \<open>ParseInt\<close> below refuses what does not fit 64 bits.
  A slice is an \<open>option\<close> of a list, \<open>None\<close> the nil slice; a pointer to a struct is
  an \<open>option\<close> of the record, \<open>None\<close> the nil pointer. A field name that two structs
  share is written with the name of its record, as \<open>ServerConfig.Port\<close>.
\<close>

record Primary =
  Env :: string

record ServerConfig =
  Port :: string
  ReadTimeout :: int
  WriteTimeout :: int
  IdleTimeout :: int
  CORSAllowedOrigins :: "string list option"

record DatabaseConfig =
  Host :: string
  Port :: int
  User :: string
  Password :: string
  Name :: string
  SSLMode :: string
  MaxOpenConns :: int
  MaxIdleConns :: int
  ConnMaxLifetime :: int
  ConnMaxIdleTime :: int

record AWSConfig =
  Region :: string
  AccessKeyID :: string
  SecretAccessKey :: string
  UploadBucket :: string
  EndpointURL :: string

record CronConfig =
  ArchiveDaysThreshold :: int
  BatchSize :: int
  ReminderHours :: int
  MaxTodosPerUserNotification :: int

definition DefaultCronConfig :: CronConfig where
  "DefaultCronConfig =
     \<lparr>ArchiveDaysThreshold = 30,
      BatchSize = 100,
      ReminderHours = 24,
      MaxTodosPerUserNotification = 10\<rparr>"

record RedisConfig =
  Address :: string
  Password :: string

record IntegrationConfig =
  ResendAPIKey :: string

record AuthConfig =
  SecretKey :: string

text \<open>
  The declaration of \<open>ObservabilityConfig\<close> is not among the sources. \<open>LoadConfig\<close>
  assigns strings to its fields \<open>ServiceName\<close> and \<open>Environment\<close>, so it has these two;
  whatever else it holds is the field \<open>settings\<close>, of a type that stays a parameter.
\<close>

record 'o ObservabilityConfig =
  ServiceName :: string
  Environment :: string
  settings :: 'o

record 'o Config =
  Primary :: Primary
  Server :: ServerConfig
  Database :: DatabaseConfig
  Auth :: AuthConfig
  Redis :: RedisConfig
  Integration :: IntegrationConfig
  Observability :: "'o ObservabilityConfig option"
  AWS :: AWSConfig
  Cron :: "CronConfig option"

text \<open>
  What \<open>koanf\<close> holds after \<open>Load\<close>: a map from names to values, each value a string of the
  environment or a nested map.
\<close>

datatype conf = Str string | Map "(string \<times> conf) list"

text \<open>
  What \<open>LoadConfig\<close> relies on from \<open>ObservabilityConfig\<close> and is not among the sources,
  as parameters:
  \<^item> \<open>DefaultObservabilityConfig\<close>: the record that \<open>DefaultObservabilityConfig()\<close> points to;
  \<^item> \<open>Validate\<close>: the method \<open>Validate()\<close>, \<open>None\<close> for a nil error;
  \<^item> \<open>validateTags\<close>: the failures that \<open>validate.Struct\<close> finds from the \<open>validate\<close>
    tags of the struct's fields, as field paths;
  \<^item> \<open>decode\<close>: the struct that \<open>Unmarshal\<close> decodes from the map under the key
    \<open>observability\<close>, with the names of the fields that fail to decode.
\<close>

record 'o observability =
  DefaultObservabilityConfig :: "'o ObservabilityConfig"
  Validate :: "'o ObservabilityConfig \<Rightarrow> string option"
  validateTags :: "'o ObservabilityConfig \<Rightarrow> string list"
  decode :: "(string \<times> conf) list \<Rightarrow> string list \<times> 'o ObservabilityConfig"


section \<open>The environment collector: \<open>env.Provider\<close> of koanf\<close>

text \<open>
  \<open>strings.ToLower\<close> on a string of ASCII bytes maps \<open>A\<close> to \<open>Z\<close> to \<open>a\<close> to \<open>z\<close> byte by
  byte, which is this definition. On a string with a byte from \<open>0x80\<close> on, Go lowers
  rune by rune with the Unicode tables, which are not part of this development: what is
  proved about collected variables is proved for ASCII names.
\<close>

definition isASCII :: "string \<Rightarrow> bool" where
  "isASCII s = (\<forall>c \<in> set s. (of_char c :: int) < 128)"

definition toLowerByte :: "char \<Rightarrow> char" where
  "toLowerByte c =
     (if (65::int) \<le> of_char c \<and> of_char c \<le> (90::int) then char_of (of_char c + (32::int)) else c)"

definition ToLower :: "string \<Rightarrow> string" where
  "ToLower s = map toLowerByte s"

text \<open>\<open>strings.Split(s, sep)\<close> for a separator of one byte.\<close>

fun Split :: "string \<Rightarrow> char \<Rightarrow> string list" where
  "Split [] sep = [[]]"
| "Split (c # cs) sep =
     (if c = sep then [] # Split cs sep
      else (case Split cs sep of [] \<Rightarrow> [[c]] | p # ps \<Rightarrow> (c # p) # ps))"

text \<open>
  \<open>maps.Unflatten\<close>: the body of its loop for one key, split into \<open>keys\<close>. The nested Go
  maps are association lists here, read with \<^const>\<open>map_of\<close> and written with
  \<^const>\<open>AList.update\<close>. Where a part of the key names a string instead of a map, the
  walk stays in the map it is in. \<open>strings.Split\<close> returns at least one part, so the
  first equation is never used.
\<close>

fun assign :: "string list \<Rightarrow> string \<Rightarrow> (string \<times> conf) list \<Rightarrow> (string \<times> conf) list" where
  "assign [] v next = next"
| "assign [k] v next = AList.update k (Str v) next"
| "assign (k # k' # ks) v next =
     (case map_of next k of
        None \<Rightarrow> AList.update k (Map (assign (k' # ks) v [])) next
      | Some (Map sub) \<Rightarrow> AList.update k (Map (assign (k' # ks) v sub)) next
      | Some (Str s) \<Rightarrow> assign (k' # ks) v next)"

text \<open>
  Go iterates over a map in an unspecified order. \<open>Unflatten\<close> here takes the flat map as
  the list of its entries and walks it from left to right. The order matters only when
  one key is a dotted prefix of another, as \<open>a\<close> and \<open>a.b\<close>.
\<close>

definition Unflatten :: "(string \<times> string) list \<Rightarrow> char \<Rightarrow> (string \<times> conf) list" where
  "Unflatten m delim = foldl (\<lambda>out (k, v). assign (Split k delim) v out) [] m"

text \<open>\<open>os.Environ()\<close>: the entries as strings \<open>NAME=value\<close>.\<close>

definition Environ :: "environ \<Rightarrow> string list" where
  "Environ env = map (\<lambda>(name, val). name @ ''='' @ val) env"

text \<open>The callback that \<open>LoadConfig\<close> hands to \<open>env.Provider\<close>.\<close>

definition envKey :: "string \<Rightarrow> string" where
  "envKey s = ToLower (TrimPrefix s ''TASKER_'')"

text \<open>
  \<open>Read\<close> of \<open>env.Provider(prefix, delim, cb)\<close>: the entries that begin with the prefix,
  each split at its first \<open>=\<close>, the key run through the callback, entries whose key comes
  back empty left out, a later entry replacing an earlier one with the same key; then
  \<open>Unflatten\<close> at the delimiter. \<open>collect\<close> is the flat map before \<open>Unflatten\<close>. An entry
  without \<open>=\<close> would make Go panic; \<open>Environ\<close> yields none.
\<close>

definition collect :: "string \<Rightarrow> (string \<Rightarrow> string) \<Rightarrow> environ \<Rightarrow> (string \<times> string) list" where
  "collect prefix cb env =
     foldl (\<lambda>mp k.
        case SplitN k (CHR ''='') 2 of
          [name, val] \<Rightarrow> (let key = cb name in if key = [] then mp else AList.update key val mp)
        | _ \<Rightarrow> mp)
       [] (filter (\<lambda>k. HasPrefix k prefix) (Environ env))"

definition Read :: "string \<Rightarrow> char \<Rightarrow> (string \<Rightarrow> string) \<Rightarrow> environ \<Rightarrow> (string \<times> conf) list" where
  "Read prefix delim cb env = Unflatten (collect prefix cb env) delim"


section \<open>The schema populator: \<open>Unmarshal\<close> of koanf\<close>

text \<open>
  \<open>strconv.ParseInt(s, 0, 64)\<close>, which decodes a string into an \<open>int\<close> field: an optional
  sign, the base from the prefix (\<open>0b\<close>, \<open>0o\<close>, \<open>0x\<close>, a leading \<open>0\<close> for octal, else
  decimal), digits of the base with underscores between them. \<open>None\<close> is any error,
  of syntax or of range.
\<close>

definition lower :: "char \<Rightarrow> char" where
  "lower c = char_of ((of_char c :: int) OR 32)"

definition digitVal :: "char \<Rightarrow> int option" where
  "digitVal c =
     (let n = of_char c :: int; l = of_char (lower c) :: int in
      if 48 \<le> n \<and> n \<le> 57 then Some (n - 48)
      else if 97 \<le> l \<and> l \<le> 122 then Some (l - 97 + 10)
      else None)"

definition maxUint64 :: int where
  "maxUint64 = 2 ^ 64 - 1"

fun digits :: "int \<Rightarrow> string \<Rightarrow> int \<Rightarrow> int option" where
  "digits base [] n = Some n"
| "digits base (c # cs) n =
     (if c = CHR ''_'' then digits base cs n
      else case digitVal c of
        None \<Rightarrow> None
      | Some d \<Rightarrow>
          if base \<le> d then None
          else if maxUint64 < n * base + d then None
          else digits base cs (n * base + d))"

datatype saw = SawStart | SawDigit | SawUnderscore | SawOther

fun underscoreLoop :: "bool \<Rightarrow> saw \<Rightarrow> string \<Rightarrow> bool" where
  "underscoreLoop hex saw [] = (saw \<noteq> SawUnderscore)"
| "underscoreLoop hex saw (c # cs) =
     (let n = of_char c :: int; l = of_char (lower c) :: int in
      if (48 \<le> n \<and> n \<le> 57) \<or> (hex \<and> 97 \<le> l \<and> l \<le> 102) then underscoreLoop hex SawDigit cs
      else if c = CHR ''_'' then
        (if saw \<noteq> SawDigit then False else underscoreLoop hex SawUnderscore cs)
      else if saw = SawUnderscore then False
      else underscoreLoop hex SawOther cs)"

definition underscoreOK :: "string \<Rightarrow> bool" where
  "underscoreOK s0 =
     (let s = (if 1 \<le> length s0 \<and> (s0 ! 0 = CHR ''-'' \<or> s0 ! 0 = CHR ''+'') then drop 1 s0 else s0) in
      if 2 \<le> length s \<and> s ! 0 = CHR ''0'' \<and>
         (lower (s ! 1) = CHR ''b'' \<or> lower (s ! 1) = CHR ''o'' \<or> lower (s ! 1) = CHR ''x'')
      then underscoreLoop (lower (s ! 1) = CHR ''x'') SawDigit (drop 2 s)
      else underscoreLoop False SawStart s)"

definition ParseUint :: "string \<Rightarrow> int option" where
  "ParseUint s =
     (if s = [] then None
      else
        let (base, ds) =
          (if s ! 0 = CHR ''0'' then
             if 3 \<le> length s \<and> lower (s ! 1) = CHR ''b'' then (2, drop 2 s)
             else if 3 \<le> length s \<and> lower (s ! 1) = CHR ''o'' then (8, drop 2 s)
             else if 3 \<le> length s \<and> lower (s ! 1) = CHR ''x'' then (16, drop 2 s)
             else (8, drop 1 s)
           else (10, s))
        in case digits base ds 0 of
             None \<Rightarrow> None
           | Some n \<Rightarrow> if CHR ''_'' \<in> set ds \<and> \<not> underscoreOK s then None else Some n)"

definition ParseInt :: "string \<Rightarrow> int option" where
  "ParseInt s0 =
     (if s0 = [] then None
      else
        let neg = (s0 ! 0 = CHR ''-'');
            s = (if s0 ! 0 = CHR ''+'' \<or> s0 ! 0 = CHR ''-'' then drop 1 s0 else s0)
        in case ParseUint s of
             None \<Rightarrow> None
           | Some un \<Rightarrow>
               if \<not> neg \<and> 2 ^ 63 \<le> un then None
               else if neg \<and> 2 ^ 63 < un then None
               else Some (if neg then - un else un))"

text \<open>
  \<open>mapstructure\<close>, as \<open>koanf\<close> configures it (tag \<open>koanf\<close>, weakly typed input, strings
  split at commas for slices). Each decoder takes the name of the field, for the error,
  and what the map holds under the field's key, \<open>None\<close> when the key is absent; it
  returns the names of the fields that failed with the decoded value. An absent key
  leaves the field at its zero value. The keys come from \<open>ToLower\<close>: among ASCII keys
  the case-insensitive second lookup of \<open>mapstructure\<close> finds nothing that \<^const>\<open>map_of\<close>
  misses.
\<close>

definition decodeString :: "string \<Rightarrow> conf option \<Rightarrow> string list \<times> string" where
  "decodeString name data =
     (case data of
        None \<Rightarrow> ([], [])
      | Some (Str s) \<Rightarrow> ([], s)
      | Some (Map m) \<Rightarrow> ([name], []))"

definition decodeInt :: "string \<Rightarrow> conf option \<Rightarrow> string list \<times> int" where
  "decodeInt name data =
     (case data of
        None \<Rightarrow> ([], 0)
      | Some (Str s) \<Rightarrow>
          (case ParseInt (if s = [] then ''0'' else s) of
             None \<Rightarrow> ([name], 0)
           | Some i \<Rightarrow> ([], i))
      | Some (Map m) \<Rightarrow> ([name], 0))"

definition decodeSlice :: "string \<Rightarrow> conf option \<Rightarrow> string list \<times> string list option" where
  "decodeSlice name data =
     (case data of
        None \<Rightarrow> ([], None)
      | Some (Str raw) \<Rightarrow> ([], Some (if raw = [] then [] else Split raw (CHR '','')))
      | Some (Map m) \<Rightarrow> (if m = [] then ([], Some []) else ([name @ ''[0]''], None)))"

text \<open>
  A field of struct type: the value under its key has to be a map. An absent key leaves
  the struct at its zero value, which is what the empty map decodes to.
\<close>

definition decodeStruct ::
  "string \<Rightarrow> ((string \<times> conf) list \<Rightarrow> string list \<times> 'a) \<Rightarrow> conf option \<Rightarrow> string list \<times> 'a" where
  "decodeStruct name decodeFields data =
     (case data of
        None \<Rightarrow> decodeFields []
      | Some (Str s) \<Rightarrow> ([name], snd (decodeFields []))
      | Some (Map m) \<Rightarrow> decodeFields m)"

text \<open>A field that points to a struct: it stays nil when its key is absent.\<close>

definition decodePtr ::
  "string \<Rightarrow> ((string \<times> conf) list \<Rightarrow> string list \<times> 'a) \<Rightarrow> conf option \<Rightarrow> string list \<times> 'a option" where
  "decodePtr name decodeFields data =
     (case data of
        None \<Rightarrow> ([], None)
      | Some (Str s) \<Rightarrow> ([name], None)
      | Some (Map m) \<Rightarrow> (let (errs, x) = decodeFields m in (errs, Some x)))"

definition decodePrimary :: "(string \<times> conf) list \<Rightarrow> string list \<times> Primary" where
  "decodePrimary m =
     (let (e1, env) = decodeString ''primary.env'' (map_of m ''env'')
      in (e1, \<lparr>Env = env\<rparr>))"

definition decodeServerConfig :: "(string \<times> conf) list \<Rightarrow> string list \<times> ServerConfig" where
  "decodeServerConfig m =
     (let (e1, port) = decodeString ''server.port'' (map_of m ''port'');
          (e2, readTimeout) = decodeInt ''server.read_timeout'' (map_of m ''read_timeout'');
          (e3, writeTimeout) = decodeInt ''server.write_timeout'' (map_of m ''write_timeout'');
          (e4, idleTimeout) = decodeInt ''server.idle_timeout'' (map_of m ''idle_timeout'');
          (e5, origins) = decodeSlice ''server.cors_allowed_origins'' (map_of m ''cors_allowed_origins'')
      in (e1 @ e2 @ e3 @ e4 @ e5,
          \<lparr>ServerConfig.Port = port, ReadTimeout = readTimeout, WriteTimeout = writeTimeout,
           IdleTimeout = idleTimeout, CORSAllowedOrigins = origins\<rparr>))"

definition decodeDatabaseConfig :: "(string \<times> conf) list \<Rightarrow> string list \<times> DatabaseConfig" where
  "decodeDatabaseConfig m =
     (let (e1, host) = decodeString ''database.host'' (map_of m ''host'');
          (e2, port) = decodeInt ''database.port'' (map_of m ''port'');
          (e3, user) = decodeString ''database.user'' (map_of m ''user'');
          (e4, password) = decodeString ''database.password'' (map_of m ''password'');
          (e5, name) = decodeString ''database.name'' (map_of m ''name'');
          (e6, sslMode) = decodeString ''database.ssl_mode'' (map_of m ''ssl_mode'');
          (e7, maxOpenConns) = decodeInt ''database.max_open_conns'' (map_of m ''max_open_conns'');
          (e8, maxIdleConns) = decodeInt ''database.max_idle_conns'' (map_of m ''max_idle_conns'');
          (e9, connMaxLifetime) = decodeInt ''database.conn_max_lifetime'' (map_of m ''conn_max_lifetime'');
          (e10, connMaxIdleTime) = decodeInt ''database.conn_max_idle_time'' (map_of m ''conn_max_idle_time'')
      in (e1 @ e2 @ e3 @ e4 @ e5 @ e6 @ e7 @ e8 @ e9 @ e10,
          \<lparr>Host = host, DatabaseConfig.Port = port, User = user, DatabaseConfig.Password = password,
           Name = name, SSLMode = sslMode, MaxOpenConns = maxOpenConns, MaxIdleConns = maxIdleConns,
           ConnMaxLifetime = connMaxLifetime, ConnMaxIdleTime = connMaxIdleTime\<rparr>))"

definition decodeAuthConfig :: "(string \<times> conf) list \<Rightarrow> string list \<times> AuthConfig" where
  "decodeAuthConfig m =
     (let (e1, secretKey) = decodeString ''auth.secret_key'' (map_of m ''secret_key'')
      in (e1, \<lparr>SecretKey = secretKey\<rparr>))"

definition decodeRedisConfig :: "(string \<times> conf) list \<Rightarrow> string list \<times> RedisConfig" where
  "decodeRedisConfig m =
     (let (e1, address) = decodeString ''redis.address'' (map_of m ''address'');
          (e2, password) = decodeString ''redis.password'' (map_of m ''password'')
      in (e1 @ e2, \<lparr>Address = address, RedisConfig.Password = password\<rparr>))"

definition decodeIntegrationConfig :: "(string \<times> conf) list \<Rightarrow> string list \<times> IntegrationConfig" where
  "decodeIntegrationConfig m =
     (let (e1, key) = decodeString ''integration.resend_api_key'' (map_of m ''resend_api_key'')
      in (e1, \<lparr>ResendAPIKey = key\<rparr>))"

definition decodeAWSConfig :: "(string \<times> conf) list \<Rightarrow> string list \<times> AWSConfig" where
  "decodeAWSConfig m =
     (let (e1, region) = decodeString ''aws.region'' (map_of m ''region'');
          (e2, accessKeyID) = decodeString ''aws.access_key_id'' (map_of m ''access_key_id'');
          (e3, secretAccessKey) = decodeString ''aws.secret_access_key'' (map_of m ''secret_access_key'');
          (e4, uploadBucket) = decodeString ''aws.upload_bucket'' (map_of m ''upload_bucket'');
          (e5, endpointURL) = decodeString ''aws.endpoint_url'' (map_of m ''endpoint_url'')
      in (e1 @ e2 @ e3 @ e4 @ e5,
          \<lparr>Region = region, AccessKeyID = accessKeyID, SecretAccessKey = secretAccessKey,
           UploadBucket = uploadBucket, EndpointURL = endpointURL\<rparr>))"

definition decodeCronConfig :: "(string \<times> conf) list \<Rightarrow> string list \<times> CronConfig" where
  "decodeCronConfig m =
     (let (e1, days) = decodeInt ''cron.archive_days_threshold'' (map_of m ''archive_days_threshold'');
          (e2, batchSize) = decodeInt ''cron.batch_size'' (map_of m ''batch_size'');
          (e3, hours) = decodeInt ''cron.reminder_hours'' (map_of m ''reminder_hours'');
          (e4, maxTodos) = decodeInt ''cron.max_todos_per_user_notification''
                             (map_of m ''max_todos_per_user_notification'')
      in (e1 @ e2 @ e3 @ e4,
          \<lparr>ArchiveDaysThreshold = days, BatchSize = batchSize, ReminderHours = hours,
           MaxTodosPerUserNotification = maxTodos\<rparr>))"

text \<open>
  \<open>k.Unmarshal("", mainConfig)\<close> into the zero \<open>Config\<close>: \<open>Inl\<close> with the fields that
  failed to decode, or the populated struct.
\<close>

definition Unmarshal :: "'o observability \<Rightarrow> (string \<times> conf) list \<Rightarrow> string list + 'o Config" where
  "Unmarshal obs m =
     (let (e1, primary) = decodeStruct ''primary'' decodePrimary (map_of m ''primary'');
          (e2, server) = decodeStruct ''server'' decodeServerConfig (map_of m ''server'');
          (e3, database) = decodeStruct ''database'' decodeDatabaseConfig (map_of m ''database'');
          (e4, auth) = decodeStruct ''auth'' decodeAuthConfig (map_of m ''auth'');
          (e5, redis) = decodeStruct ''redis'' decodeRedisConfig (map_of m ''redis'');
          (e6, integration) = decodeStruct ''integration'' decodeIntegrationConfig
                                (map_of m ''integration'');
          (e7, observability) = decodePtr ''observability'' (decode obs) (map_of m ''observability'');
          (e8, aws) = decodeStruct ''aws'' decodeAWSConfig (map_of m ''aws'');
          (e9, cron) = decodePtr ''cron'' decodeCronConfig (map_of m ''cron'');
          errs = e1 @ e2 @ e3 @ e4 @ e5 @ e6 @ e7 @ e8 @ e9
      in if errs \<noteq> [] then Inl errs
         else Inr \<lparr>Primary = primary, Server = server, Database = database, Auth = auth,
                   Redis = redis, Integration = integration, Observability = observability,
                   AWS = aws, Cron = cron\<rparr>)"


section \<open>The validator: \<open>validate.Struct\<close>\<close>

text \<open>
  The tag \<open>required\<close> of \<open>validator\<close>: a string has to be non-empty, an \<open>int\<close> non-zero,
  a slice non-nil. A failure is reported under the path of the field, which starts with
  the name of the outermost struct. On a field of struct type the tag adds nothing: the
  validator walks into the struct, where the zero struct fails at its own required
  fields. Fields without a tag are not checked.
\<close>

definition requiredString :: "string \<Rightarrow> string \<Rightarrow> string list" where
  "requiredString path s = (if s = [] then [path] else [])"

definition requiredInt :: "string \<Rightarrow> int \<Rightarrow> string list" where
  "requiredInt path i = (if i = 0 then [path] else [])"

definition requiredSlice :: "string \<Rightarrow> 'a list option \<Rightarrow> string list" where
  "requiredSlice path xs = (if xs = None then [path] else [])"

definition validateStruct :: "'o observability \<Rightarrow> 'o Config \<Rightarrow> string list" where
  "validateStruct obs c =
     requiredString ''Config.Primary.Env'' (Env (Primary c)) @
     requiredString ''Config.Server.Port'' (ServerConfig.Port (Server c)) @
     requiredInt ''Config.Server.ReadTimeout'' (ReadTimeout (Server c)) @
     requiredInt ''Config.Server.WriteTimeout'' (WriteTimeout (Server c)) @
     requiredInt ''Config.Server.IdleTimeout'' (IdleTimeout (Server c)) @
     requiredSlice ''Config.Server.CORSAllowedOrigins'' (CORSAllowedOrigins (Server c)) @
     requiredString ''Config.Database.Host'' (Host (Database c)) @
     requiredInt ''Config.Database.Port'' (DatabaseConfig.Port (Database c)) @
     requiredString ''Config.Database.User'' (User (Database c)) @
     requiredString ''Config.Database.Name'' (Name (Database c)) @
     requiredString ''Config.Database.SSLMode'' (SSLMode (Database c)) @
     requiredInt ''Config.Database.MaxOpenConns'' (MaxOpenConns (Database c)) @
     requiredInt ''Config.Database.MaxIdleConns'' (MaxIdleConns (Database c)) @
     requiredInt ''Config.Database.ConnMaxLifetime'' (ConnMaxLifetime (Database c)) @
     requiredInt ''Config.Database.ConnMaxIdleTime'' (ConnMaxIdleTime (Database c)) @
     requiredString ''Config.Auth.SecretKey'' (SecretKey (Auth c)) @
     requiredString ''Config.Redis.Address'' (Address (Redis c)) @
     requiredString ''Config.Integration.ResendAPIKey'' (ResendAPIKey (Integration c)) @
     (case Observability c of None \<Rightarrow> [] | Some ob \<Rightarrow> validateTags obs ob) @
     requiredString ''Config.AWS.Region'' (Region (AWS c)) @
     requiredString ''Config.AWS.AccessKeyID'' (AccessKeyID (AWS c)) @
     requiredString ''Config.AWS.SecretAccessKey'' (SecretAccessKey (AWS c)) @
     requiredString ''Config.AWS.UploadBucket'' (UploadBucket (AWS c))"


section \<open>\<open>LoadConfig\<close>\<close>

text \<open>
  The three calls of \<open>logger.Fatal()\<close> that can end the process, with what they log. The
  fourth, on an error of \<open>k.Load\<close>, is never reached: \<open>Read\<close> of the environment
  provider returns no error.
\<close>

datatype fatal =
    CouldNotUnmarshal "string list"
  | ConfigValidationFailed "string list"
  | InvalidObservabilityConfig string

text \<open>Lines 128 to 140 of \<open>LoadConfig\<close>, on the address: the new \<open>mainConfig.Redis.Address\<close>.\<close>

definition normalizeRedisAddress :: "string \<Rightarrow> string" where
  "normalizeRedisAddress address =
     (if address \<noteq> [] then
        (let addr = TrimSpace address in
         if HasPrefix addr ''redis://'' then TrimPrefix addr ''redis://''
         else if HasPrefix addr ''rediss://'' then TrimPrefix addr ''rediss://''
         else addr)
      else address)"

definition normalizeRedis :: "'o Config \<Rightarrow> 'o Config" where
  "normalizeRedis mainConfig =
     mainConfig\<lparr>Redis := (Redis mainConfig)\<lparr>Address := normalizeRedisAddress (Address (Redis mainConfig))\<rparr>\<rparr>"

text \<open>Lines 147 to 149.\<close>

definition defaultCron :: "'o Config \<Rightarrow> 'o Config" where
  "defaultCron mainConfig =
     (if Cron mainConfig = None then mainConfig\<lparr>Cron := Some DefaultCronConfig\<rparr> else mainConfig)"

text \<open>
  Lines 112 to 151: what \<open>LoadConfig\<close> does with the populated \<open>mainConfig\<close>. \<open>ob\<close> is the
  struct that \<open>mainConfig.Observability\<close> points to from line 122 on.
\<close>

definition finishConfig :: "'o observability \<Rightarrow> 'o Config \<Rightarrow> fatal + 'o Config" where
  "finishConfig obs mainConfig =
     (case validateStruct obs mainConfig of
        e # es \<Rightarrow> Inl (ConfigValidationFailed (e # es))
      | [] \<Rightarrow>
          (let ob = (case Observability mainConfig of
                       None \<Rightarrow> DefaultObservabilityConfig obs
                     | Some ob \<Rightarrow> ob);
               ob = ob\<lparr>ServiceName := ''tasker'', Environment := Env (Primary mainConfig)\<rparr>;
               mainConfig = mainConfig\<lparr>Observability := Some ob\<rparr>;
               mainConfig = normalizeRedis mainConfig
           in case Validate obs ob of
                Some err \<Rightarrow> Inl (InvalidObservabilityConfig err)
              | None \<Rightarrow> Inr (defaultCron mainConfig)))"

text \<open>
  \<open>LoadConfig\<close>, from the files and the process environment it starts in. The Go function
  returns the configuration with a nil error, or does not return: the process exits in
  \<open>logger.Fatal()\<close>.
\<close>

definition LoadConfig :: "'o observability \<Rightarrow> files \<Rightarrow> environ \<Rightarrow> fatal + 'o Config" where
  "LoadConfig obs fs environ =
     (let env = loadDotEnvFiles fs environ [''.env'', ''apps/backend/.env''];
          k = Read ''TASKER_'' (CHR ''.'') envKey env
      in case Unmarshal obs k of
           Inl errs \<Rightarrow> Inl (CouldNotUnmarshal errs)
         | Inr mainConfig \<Rightarrow> finishConfig obs mainConfig)"


section \<open>Reading the collected map\<close>

text \<open>What a map of \<open>koanf\<close> holds at a path of keys, \<open>None\<close> where the path leads nowhere.\<close>

fun valueAt :: "(string \<times> conf) list \<Rightarrow> string list \<Rightarrow> conf option" where
  "valueAt m [] = Some (Map m)"
| "valueAt m (k # ks) =
     (case map_of m k of
        None \<Rightarrow> None
      | Some (Str s) \<Rightarrow> (if ks = [] then Some (Str s) else None)
      | Some (Map sub) \<Rightarrow> valueAt sub ks)"


section \<open>The fields of the schema by their keys\<close>





section \<open>Key paths, and inputs for the examples\<close>

text \<open>
  An \<open>ObservabilityConfig\<close> without further settings, whose \<open>Validate\<close> asks for a service
  name as its only rule, and whose two known fields decode from the keys \<open>service_name\<close>
  and \<open>environment\<close>; and an environment that supplies each required field.
\<close>

definition exampleObservability :: "unit observability" where
  "exampleObservability =
     \<lparr>DefaultObservabilityConfig =
        \<lparr>ServiceName = ''boilerplate'', Environment = ''development'', settings = ()\<rparr>,
      Validate = (\<lambda>ob. if ServiceName ob = [] then Some ''service_name is required'' else None),
      validateTags = (\<lambda>ob. []),
      decode = (\<lambda>m.
        (fst (decodeString ''observability.service_name'' (map_of m ''service_name'')) @
         fst (decodeString ''observability.environment'' (map_of m ''environment'')),
         \<lparr>ServiceName = snd (decodeString ''observability.service_name'' (map_of m ''service_name'')),
          Environment = snd (decodeString ''observability.environment'' (map_of m ''environment'')),
          settings = ()\<rparr>))\<rparr>"

definition exampleEnviron :: environ where
  "exampleEnviron =
    [(''PATH'', ''/usr/bin''),
     (''TASKER_PRIMARY.ENV'', ''local''),
     (''TASKER_SERVER.READ_TIMEOUT'', ''30''),
     (''TASKER_SERVER.WRITE_TIMEOUT'', ''30''),
     (''TASKER_SERVER.IDLE_TIMEOUT'', ''60''),
     (''TASKER_SERVER.CORS_ALLOWED_ORIGINS'', ''http://localhost:3000''),
     (''TASKER_DATABASE.HOST'', ''db''),
     (''TASKER_DATABASE.PORT'', ''5432''),
     (''TASKER_DATABASE.USER'', ''postgres''),
     (''TASKER_DATABASE.SSL_MODE'', ''disable''),
     (''TASKER_DATABASE.MAX_OPEN_CONNS'', ''25''),
     (''TASKER_DATABASE.MAX_IDLE_CONNS'', ''25''),
     (''TASKER_DATABASE.CONN_MAX_LIFETIME'', ''300''),
     (''TASKER_DATABASE.CONN_MAX_IDLE_TIME'', ''300''),
     (''TASKER_AUTH.SECRET_KEY'', ''secret''),
     (''TASKER_REDIS.ADDRESS'', ''redis://cache:6379''),
     (''TASKER_INTEGRATION.RESEND_API_KEY'', ''re_123''),
     (''TASKER_AWS.REGION'', ''us-east-1''),
     (''TASKER_AWS.ACCESS_KEY_ID'', ''AKIA''),
     (''TASKER_AWS.SECRET_ACCESS_KEY'', ''shh''),
     (''TASKER_AWS.UPLOAD_BUCKET'', ''uploads'')]"

definition exampleConfig :: "unit Config" where
  "exampleConfig =
     \<lparr>Primary = \<lparr>Env = ''local''\<rparr>,
      Server = \<lparr>ServerConfig.Port = ''8080'', ReadTimeout = 30, WriteTimeout = 30, IdleTimeout = 60,
                CORSAllowedOrigins = Some [''http://localhost:3000'']\<rparr>,
      Database = \<lparr>Host = ''db'', DatabaseConfig.Port = 5432, User = ''postgres'',
                  DatabaseConfig.Password = [], Name = ''tasker'', SSLMode = ''disable'',
                  MaxOpenConns = 25, MaxIdleConns = 25, ConnMaxLifetime = 300,
                  ConnMaxIdleTime = 300\<rparr>,
      Auth = \<lparr>SecretKey = ''secret''\<rparr>,
      Redis = \<lparr>Address = ''cache:6379'', RedisConfig.Password = []\<rparr>,
      Integration = \<lparr>ResendAPIKey = ''re_123''\<rparr>,
      Observability = Some \<lparr>ServiceName = ''other'', Environment = ''production'', settings = ()\<rparr>,
      AWS = \<lparr>Region = ''us-east-1'', AccessKeyID = ''AKIA'', SecretAccessKey = ''shh'',
             UploadBucket = ''uploads'', EndpointURL = []\<rparr>,
      Cron = Some \<lparr>ArchiveDaysThreshold = 0, BatchSize = 50, ReminderHours = 0,
                    MaxTodosPerUserNotification = 0\<rparr>\<rparr>"





definition noFiles :: files where
  "noFiles p = None"


section \<open>Lemmas\<close>

lemma HasPrefix_append: "HasPrefix s p \<longleftrightarrow> (\<exists>r. s = p @ r)"
  unfolding HasPrefix_def
  by (metis append_eq_conv_conj append_take_drop_id length_append le_add1)

lemma HasSuffix_append: "HasSuffix s p \<longleftrightarrow> (\<exists>r. s = r @ p)"
  unfolding HasSuffix_def
  by (metis append_eq_conv_conj append_take_drop_id length_append le_add2 diff_add_inverse2)

lemma find_SomeD: "find P xs = Some x \<Longrightarrow> x \<in> set xs \<and> P x"
  by (induction xs) (auto split: if_splits)

lemma spaceWidth_0_iff: "spaceWidth s = 0 \<longleftrightarrow> (\<forall>e \<in> set whiteSpace. \<not> HasPrefix s e)"
proof (cases "find (HasPrefix s) whiteSpace")
  case None
  moreover from None have "\<forall>e \<in> set whiteSpace. \<not> HasPrefix s e"
    by (auto simp: find_None_iff)
  ultimately show ?thesis by (simp add: spaceWidth_def)
next
  case (Some e)
  then have "e \<in> set whiteSpace \<and> HasPrefix s e" by (rule find_SomeD)
  then show ?thesis using Some whiteSpace_nonempty by (auto simp: spaceWidth_def)
qed

lemma lastSpaceWidth_0_iff: "lastSpaceWidth s = 0 \<longleftrightarrow> (\<forall>e \<in> set whiteSpace. \<not> HasSuffix s e)"
proof (cases "find (HasSuffix s) whiteSpace")
  case None
  moreover from None have "\<forall>e \<in> set whiteSpace. \<not> HasSuffix s e"
    by (auto simp: find_None_iff)
  ultimately show ?thesis by (simp add: lastSpaceWidth_def)
next
  case (Some e)
  then have "e \<in> set whiteSpace \<and> HasSuffix s e" by (rule find_SomeD)
  then show ?thesis using Some whiteSpace_nonempty by (auto simp: lastSpaceWidth_def)
qed

lemma TrimLeftSpace_fix: "spaceWidth s = 0 \<Longrightarrow> TrimLeftSpace s = s"
  by (simp add: TrimLeftSpace.simps)

lemma TrimRightSpace_fix: "lastSpaceWidth s = 0 \<Longrightarrow> TrimRightSpace s = s"
  by (simp add: TrimRightSpace.simps)

lemma spaceWidth_TrimLeftSpace: "spaceWidth (TrimLeftSpace s) = 0"
  by (induction s rule: TrimLeftSpace.induct) (simp add: TrimLeftSpace.simps)

lemma lastSpaceWidth_TrimRightSpace: "lastSpaceWidth (TrimRightSpace s) = 0"
  by (induction s rule: TrimRightSpace.induct) (simp add: TrimRightSpace.simps)

lemma TrimLeftSpace_suffix: "\<exists>r. s = r @ TrimLeftSpace s"
proof (induction s rule: TrimLeftSpace.induct)
  case (1 s)
  show ?case
  proof (cases "spaceWidth s = 0")
    case True
    then show ?thesis by (simp add: TrimLeftSpace.simps)
  next
    case False
    with 1 obtain r where "drop (spaceWidth s) s = r @ TrimLeftSpace (drop (spaceWidth s) s)"
      by blast
    then have "s = (take (spaceWidth s) s @ r) @ TrimLeftSpace s"
      using False by (metis TrimLeftSpace.simps append.assoc append_take_drop_id)
    then show ?thesis by blast
  qed
qed

lemma TrimRightSpace_prefix: "\<exists>r. s = TrimRightSpace s @ r"
proof (induction s rule: TrimRightSpace.induct)
  case (1 s)
  show ?case
  proof (cases "lastSpaceWidth s = 0")
    case True
    then show ?thesis by (simp add: TrimRightSpace.simps)
  next
    case False
    let ?t = "take (length s - lastSpaceWidth s) s"
    from 1 False obtain r where "?t = TrimRightSpace ?t @ r"
      by blast
    then have "s = TrimRightSpace s @ (r @ drop (length s - lastSpaceWidth s) s)"
      using False by (metis TrimRightSpace.simps append.assoc append_take_drop_id)
    then show ?thesis by blast
  qed
qed

lemma spaceWidth_prefix: 
  assumes "spaceWidth (t @ r) = 0" shows "spaceWidth t = 0"
  using assms unfolding spaceWidth_0_iff HasPrefix_append by auto

lemma lastSpaceWidth_suffix:
  assumes "lastSpaceWidth (r @ t) = 0" shows "lastSpaceWidth t = 0"
  using assms unfolding lastSpaceWidth_0_iff HasSuffix_append by (metis append.assoc)

lemma spaceWidth_TrimSpace: "spaceWidth (TrimSpace s) = 0"
  unfolding TrimSpace_def
  by (metis spaceWidth_TrimLeftSpace TrimRightSpace_prefix spaceWidth_prefix)

lemma lastSpaceWidth_TrimSpace: "lastSpaceWidth (TrimSpace s) = 0"
  by (simp add: TrimSpace_def lastSpaceWidth_TrimRightSpace)

lemma TrimSpace_fix: "spaceWidth s = 0 \<Longrightarrow> lastSpaceWidth s = 0 \<Longrightarrow> TrimSpace s = s"
  by (simp add: TrimSpace_def TrimLeftSpace_fix TrimRightSpace_fix)

lemma TrimSpace_idem: "TrimSpace (TrimSpace s) = TrimSpace s"
  by (simp add: TrimSpace_fix spaceWidth_TrimSpace lastSpaceWidth_TrimSpace)

lemma TrimLeftSpace_length: "length (TrimLeftSpace s) \<le> length s"
  by (metis TrimLeftSpace_suffix length_append le_add2)

lemma TrimRightSpace_length: "length (TrimRightSpace s) \<le> length s"
  by (metis TrimRightSpace_prefix length_append le_add1)

lemma TrimLeftSpace_shorter: "spaceWidth s \<noteq> 0 \<Longrightarrow> length (TrimLeftSpace s) < length s"
proof -
  assume a: "spaceWidth s \<noteq> 0"
  have "length (TrimLeftSpace (drop (spaceWidth s) s)) \<le> length (drop (spaceWidth s) s)"
    by (rule TrimLeftSpace_length)
  moreover have "spaceWidth s \<le> length s" by (rule spaceWidth_le)
  ultimately show ?thesis using a by (subst TrimLeftSpace.simps) simp
qed

lemma TrimSpace_length: "length (TrimSpace s) \<le> length s"
  unfolding TrimSpace_def
  by (meson TrimLeftSpace_length TrimRightSpace_length le_trans)

lemma TrimSpace_shorter: "spaceWidth s \<noteq> 0 \<Longrightarrow> length (TrimSpace s) < length s"
  unfolding TrimSpace_def
  by (meson TrimLeftSpace_shorter TrimRightSpace_length le_less_trans)

lemma TrimPrefix_length: "length (TrimPrefix s p) \<le> length s"
  by (simp add: TrimPrefix_def)

lemma normalizeRedisAddress_length: "length (normalizeRedisAddress x) \<le> length x"
proof -
  have "length (TrimSpace x) \<le> length x" by (rule TrimSpace_length)
  then show ?thesis
    by (auto simp: normalizeRedisAddress_def Let_def TrimPrefix_def)
qed

lemma lastSpaceWidth_drop:
  assumes "lastSpaceWidth s = 0" shows "lastSpaceWidth (drop n s) = 0"
  using assms lastSpaceWidth_suffix [of "take n s" "drop n s"] by simp

lemma lastSpaceWidth_normalizeRedisAddress:
  "lastSpaceWidth (normalizeRedisAddress x) = 0"
proof (cases "x = []")
  case True
  then show ?thesis
    by (simp add: normalizeRedisAddress_def lastSpaceWidth_0_iff HasSuffix_def
        whiteSpace_nonempty)
next
  case False
  then show ?thesis
    by (simp add: normalizeRedisAddress_def Let_def TrimPrefix_def lastSpaceWidth_TrimSpace
        lastSpaceWidth_drop)
qed

lemma normalizeRedisAddress_fix:
  assumes "spaceWidth r = 0" "lastSpaceWidth r = 0"
    "\<not> HasPrefix r ''redis://''" "\<not> HasPrefix r ''rediss://''"
  shows "normalizeRedisAddress r = r"
  using assms by (simp add: normalizeRedisAddress_def TrimSpace_fix)

lemma normalizeRedisAddress_shrinks:
  assumes "lastSpaceWidth r = 0"
    and "spaceWidth r \<noteq> 0 \<or> HasPrefix r ''redis://'' \<or> HasPrefix r ''rediss://''"
  shows "length (normalizeRedisAddress r) < length r"
proof (cases "spaceWidth r = 0")
  case False
  then have "length (TrimSpace r) < length r" by (rule TrimSpace_shorter)
  moreover from False have "r \<noteq> []" by (auto simp: spaceWidth_def HasPrefix_def whiteSpace_def)
  ultimately show ?thesis
    by (auto simp: normalizeRedisAddress_def Let_def TrimPrefix_def)
next
  case True
  with assms have p: "HasPrefix r ''redis://'' \<or> HasPrefix r ''rediss://''" by simp
  then have ne: "r \<noteq> []" by (auto simp: HasPrefix_def)
  from True assms(1) have "TrimSpace r = r" by (simp add: TrimSpace_fix)
  with p ne show ?thesis
    by (auto simp: normalizeRedisAddress_def Let_def TrimPrefix_def HasPrefix_def)
qed

lemma SplitN_first:
  assumes "sep \<notin> set k"
  shows "SplitN (k @ sep # v) sep 2 = [k, v]"
proof -
  have "takeWhile (\<lambda>c. c \<noteq> sep) (k @ sep # v) = k"
    using assms by (induction k) auto
  moreover have "dropWhile (\<lambda>c. c \<noteq> sep) (k @ sep # v) = sep # v"
    using assms by (induction k) auto
  ultimately show ?thesis by (simp add: numeral_2_eq_2)
qed

lemma SplitN_none:
  assumes "sep \<notin> set s"
  shows "SplitN s sep 2 = [s]"
  using assms by (simp add: numeral_2_eq_2)

lemma quoted_iff:
  "(2 \<le> length val \<and> val ! 0 = q \<and> val ! (length val - 1) = q) \<longleftrightarrow> (\<exists>body. val = q # body @ [q])"
proof
  assume a: "2 \<le> length val \<and> val ! 0 = q \<and> val ! (length val - 1) = q"
  then obtain x xs where v: "val = x # xs" by (cases val) auto
  with a have xs: "xs \<noteq> []" by auto
  from a v have "x = q" by simp
  moreover from a v xs have "last xs = q" by (simp add: last_conv_nth)
  ultimately have "val = q # butlast xs @ [q]" using v xs
    by (metis append_butlast_last_id)
  then show "\<exists>body. val = q # body @ [q]" by blast
next
  assume "\<exists>body. val = q # body @ [q]"
  then show "2 \<le> length val \<and> val ! 0 = q \<and> val ! (length val - 1) = q"
    by (auto simp: nth_append)
qed

lemma unquote_body: "take (length (q # body @ [q]) - 1 - 1) (drop 1 (q # body @ [q])) = body"
  by simp

lemma parseLine_assign:
  assumes t: "TrimSpace text = k @ CHR ''='' # v" and k: "CHR ''='' \<notin> set k"
    and c: "\<not> HasPrefix (TrimSpace text) ''#''"
  shows "parseLine text =
     Some (TrimSpace k,
       if (\<exists>body. TrimSpace v = CHR 0x22 # body @ [CHR 0x22]) \<or>
          (\<exists>body. TrimSpace v = CHR 0x27 # body @ [CHR 0x27])
       then take (length (TrimSpace v) - 1 - 1) (drop 1 (TrimSpace v)) else TrimSpace v)"
proof -
  have ne: "TrimSpace text \<noteq> []" using t by simp
  have sp: "SplitN (TrimSpace text) (CHR ''='') 2 = [k, v]"
    unfolding t using k by (rule SplitN_first)
  have q1: "(2 \<le> length (TrimSpace v) \<and> TrimSpace v ! 0 = CHR 0x22
       \<and> TrimSpace v ! (length (TrimSpace v) - 1) = CHR 0x22)
      = (\<exists>body. TrimSpace v = CHR 0x22 # body @ [CHR 0x22])"
    by (rule quoted_iff)
  have q2: "(2 \<le> length (TrimSpace v) \<and> TrimSpace v ! 0 = CHR 0x27
       \<and> TrimSpace v ! (length (TrimSpace v) - 1) = CHR 0x27)
      = (\<exists>body. TrimSpace v = CHR 0x27 # body @ [CHR 0x27])"
    by (rule quoted_iff)
  show ?thesis
  proof (cases "2 \<le> length (TrimSpace v)")
    case True
    with q1 q2 show ?thesis
      using ne c sp by (simp add: parseLine_def Let_def)
  next
    case False
    with q1 q2 show ?thesis
      using ne c sp by (simp add: parseLine_def Let_def)
  qed
qed



lemma Setenv_same:
  assumes "Setenv env K v = Inr env'"
  shows "map_of env' K = Some v"
  using assms by (auto simp: Setenv_def update_conv' split: if_splits)

lemma Setenv_total:
  "Setenv env key val = Inr (AList.update key val env) \<or> Setenv env key val = Inl EINVAL"
  by (simp add: Setenv_def)




lemma requiredString_nonempty: "s \<noteq> [] \<Longrightarrow> requiredString path s = []"
  by (simp add: requiredString_def)

lemma finishConfig_invalid:
  "validateStruct obs c = e # es \<Longrightarrow> finishConfig obs c = Inl (ConfigValidationFailed (e # es))"
  by (simp add: finishConfig_def)

lemma finishConfig_valid:
  assumes "validateStruct obs c = []"
    and "ob = (case Observability c of None \<Rightarrow> DefaultObservabilityConfig obs | Some ob \<Rightarrow> ob)
               \<lparr>ServiceName := ''tasker'', Environment := Env (Primary c)\<rparr>"
  shows "finishConfig obs c =
     (case Validate obs ob of
        Some err \<Rightarrow> Inl (InvalidObservabilityConfig err)
      | None \<Rightarrow> Inr (defaultCron (normalizeRedis (c\<lparr>Observability := Some ob\<rparr>))))"
  unfolding assms(2) using assms(1) by (simp add: finishConfig_def Let_def)

lemma assign_absent:
  "n \<notin> set ks \<Longrightarrow> map_of m n = None \<Longrightarrow> map_of (assign ks v m) n = None"
proof (induction ks v m rule: assign.induct)
  case (1 v "next")
  then show ?case by simp
next
  case (2 k v "next")
  then show ?case by (simp add: update_conv')
next
  case (3 k k' ks v "next")
  show ?case
  proof (cases "map_of next k")
    case None
    with 3 show ?thesis by (simp add: update_conv')
  next
    case (Some c)
    show ?thesis
    proof (cases c)
      case (Str s)
      with Some 3 show ?thesis by simp
    next
      case (Map sub)
      with Some 3 show ?thesis by (simp add: update_conv')
    qed
  qed
qed

lemma foldl_assign_absent:
  assumes "\<forall>(k, v) \<in> set kvs. n \<notin> set (Split k delim)" and "map_of out n = None"
  shows "map_of (foldl (\<lambda>out (k, v). assign (Split k delim) v out) out kvs) n = None"
  using assms
proof (induction kvs arbitrary: out)
  case Nil
  then show ?case by simp
next
  case (Cons kv kvs)
  obtain k v where kv: "kv = (k, v)" by (cases kv)
  with Cons.prems have "n \<notin> set (Split k delim)" by simp
  then have "map_of (assign (Split k delim) v out) n = None"
    using Cons.prems(2) by (rule assign_absent)
  moreover from Cons.prems have "\<forall>(k, v) \<in> set kvs. n \<notin> set (Split k delim)" by simp
  ultimately show ?case using Cons.IH kv by simp
qed

lemma Unflatten_absent:
  assumes "\<forall>(k, v) \<in> set kvs. n \<notin> set (Split k delim)"
  shows "map_of (Unflatten kvs delim) n = None"
  unfolding Unflatten_def using assms by (rule foldl_assign_absent) simp

lemma HasPrefix_Environ_entry:
  assumes "CHR ''='' \<notin> set name" and "CHR ''='' \<notin> set prefix"
  shows "HasPrefix (name @ ''='' @ val) prefix \<longleftrightarrow> HasPrefix name prefix"
proof (cases "length prefix \<le> length name")
  case True
  then show ?thesis by (simp add: HasPrefix_def)
next
  case False
  then have short: "length name < length prefix" by simp
  then have "\<not> HasPrefix name prefix" by (simp add: HasPrefix_def)
  moreover have "\<not> HasPrefix (name @ ''='' @ val) prefix"
  proof
    assume "HasPrefix (name @ ''='' @ val) prefix"
    then have "take (length prefix) (name @ ''='' @ val) = prefix"
      by (simp add: HasPrefix_def)
    then have "prefix ! length name = take (length prefix) (name @ ''='' @ val) ! length name"
      by simp
    also have "\<dots> = (name @ ''='' @ val) ! length name"
      using short by (rule nth_take)
    also have "\<dots> = CHR ''=''" by (simp add: nth_append)
    finally have "prefix ! length name = CHR ''=''" .
    with short have "CHR ''='' \<in> set prefix" by (metis nth_mem)
    with assms show False by simp
  qed
  ultimately show ?thesis by simp
qed

lemma collect_step_keys:
  assumes eq: "CHR ''='' \<notin> set name"
  shows "fst ` set (case SplitN (name @ ''='' @ val) (CHR ''='') 2 of
             [n, v] \<Rightarrow> (let key = cb n in if key = [] then mp else AList.update key v mp)
           | _ \<Rightarrow> mp) \<subseteq> insert (cb name) (fst ` set mp)"
proof -
  have "SplitN (name @ ''='' @ val) (CHR ''='') 2 = [name, val]"
    using SplitN_first [OF eq, of val] by simp
  then show ?thesis by (auto simp: Let_def dom_update)
qed

lemma subset_chain:
  "F \<subseteq> A1 \<union> S \<Longrightarrow> A1 \<subseteq> insert x A \<Longrightarrow> x \<in> S' \<Longrightarrow> S \<subseteq> S' \<Longrightarrow> F \<subseteq> A \<union> S'"
  by blast

lemma subset_weaken: "F \<subseteq> A \<union> S \<Longrightarrow> S \<subseteq> S' \<Longrightarrow> F \<subseteq> A \<union> S'"
  by blast

lemma collect_foldl_keys:
  assumes "\<forall>(name, val) \<in> set env. CHR ''='' \<notin> set name" and "CHR ''='' \<notin> set prefix"
  shows "fst ` set (foldl (\<lambda>mp k.
        case SplitN k (CHR ''='') 2 of
          [name, val] \<Rightarrow> (let key = cb name in if key = [] then mp else AList.update key val mp)
        | _ \<Rightarrow> mp)
       acc (filter (\<lambda>k. HasPrefix k prefix) (Environ env)))
     \<subseteq> fst ` set acc \<union> {cb name | name val. (name, val) \<in> set env \<and> HasPrefix name prefix}"
  using assms(1)
proof (induction env arbitrary: acc)
  case Nil
  then show ?case by (simp add: Environ_def)
next
  case (Cons e env)
  obtain name val where e: "e = (name, val)" by (cases e)
  with Cons.prems have eq: "CHR ''='' \<notin> set name" by simp
  from Cons.prems have rest: "\<forall>(name, val) \<in> set env. CHR ''='' \<notin> set name" by simp
  define step where "step = (\<lambda>mp k.
        case SplitN k (CHR ''='') 2 of
          [name, val] \<Rightarrow> (let key = cb name in if key = [] then mp else AList.update key val mp)
        | _ \<Rightarrow> mp)"
  define S where "S = {cb name | name val. (name, val) \<in> set env \<and> HasPrefix name prefix}"
  define S' where "S' = {cb name | name val. (name, val) \<in> set (e # env) \<and> HasPrefix name prefix}"
  define es where "es = filter (\<lambda>k. HasPrefix k prefix) (Environ env)"
  have ih: "fst ` set (foldl step acc' es) \<subseteq> fst ` set acc' \<union> S" for acc'
    unfolding step_def S_def es_def using rest by (rule Cons.IH)
  have sub: "S \<subseteq> S'" unfolding S_def S'_def by auto
  have p: "HasPrefix (name @ ''='' @ val) prefix \<longleftrightarrow> HasPrefix name prefix"
    using eq assms(2) by (rule HasPrefix_Environ_entry)
  have goal: "fst ` set (foldl step acc (filter (\<lambda>k. HasPrefix k prefix) (Environ (e # env))))
      \<subseteq> fst ` set acc \<union> S'"
  proof (cases "HasPrefix name prefix")
    case False
    with p have f: "filter (\<lambda>k. HasPrefix k prefix) (Environ (e # env)) = es"
      by (simp add: Environ_def e es_def)
    from ih [of acc] sub show ?thesis unfolding f by (rule subset_weaken)
  next
    case True
    with p have f: "filter (\<lambda>k. HasPrefix k prefix) (Environ (e # env))
        = (name @ ''='' @ val) # es"
      by (simp add: Environ_def e es_def)
    define acc1 where "acc1 = step acc (name @ ''='' @ val)"
    have a: "fst ` set acc1 \<subseteq> insert (cb name) (fst ` set acc)"
      unfolding acc1_def step_def using eq by (rule collect_step_keys)
    have m: "cb name \<in> S'" unfolding S'_def using True e by auto
    have r: "foldl step acc ((name @ ''='' @ val) # es) = foldl step acc1 es"
      by (simp add: acc1_def)
    from ih [of acc1] a m sub
    have "fst ` set (foldl step acc1 es) \<subseteq> fst ` set acc \<union> S'"
      by (rule subset_chain)
    then show ?thesis unfolding f r .
  qed
  then show ?case unfolding step_def S'_def .
qed

lemma collect_keys:
  assumes "\<forall>(name, val) \<in> set env. CHR ''='' \<notin> set name" and "CHR ''='' \<notin> set prefix"
  shows "fst ` set (collect prefix cb env)
     \<subseteq> {cb name | name val. (name, val) \<in> set env \<and> HasPrefix name prefix}"
  unfolding collect_def using collect_foldl_keys [OF assms, of cb "[]"] by simp

lemma Read_absent:
  assumes eq: "\<forall>(name, val) \<in> set env. CHR ''='' \<notin> set name"
    and np: "CHR ''='' \<notin> set prefix"
    and no: "\<forall>(name, val) \<in> set env. HasPrefix name prefix \<longrightarrow> n \<notin> set (Split (cb name) delim)"
  shows "map_of (Read prefix delim cb env) n = None"
  unfolding Read_def
proof (rule Unflatten_absent)
  show "\<forall>(k, v) \<in> set (collect prefix cb env). n \<notin> set (Split k delim)"
  proof (clarify)
    fix k v
    assume kv: "(k, v) \<in> set (collect prefix cb env)" and n: "n \<in> set (Split k delim)"
    from kv have "k \<in> fst ` set (collect prefix cb env)" by force
    with collect_keys [OF eq np, of cb] obtain name val
      where "(name, val) \<in> set env" "HasPrefix name prefix" "k = cb name" by blast
    with no n show False by auto
  qed
qed

lemma finishConfig_Inr:
  assumes "finishConfig obs c = Inr c'"
  shows "validateStruct obs c = [] \<and>
     Validate obs ((case Observability c of None \<Rightarrow> DefaultObservabilityConfig obs | Some ob \<Rightarrow> ob)
               \<lparr>ServiceName := ''tasker'', Environment := Env (Primary c)\<rparr>) = None \<and>
     c' = defaultCron (normalizeRedis (c\<lparr>Observability :=
            Some ((case Observability c of None \<Rightarrow> DefaultObservabilityConfig obs | Some ob \<Rightarrow> ob)
               \<lparr>ServiceName := ''tasker'', Environment := Env (Primary c)\<rparr>)\<rparr>))"
proof (cases "validateStruct obs c")
  case (Cons e es)
  then have "finishConfig obs c = Inl (ConfigValidationFailed (e # es))"
    by (rule finishConfig_invalid)
  with assms show ?thesis by simp
next
  case Nil
  let ?ob = "(case Observability c of None \<Rightarrow> DefaultObservabilityConfig obs | Some ob \<Rightarrow> ob)
               \<lparr>ServiceName := ''tasker'', Environment := Env (Primary c)\<rparr>"
  from Nil have f: "finishConfig obs c =
     (case Validate obs ?ob of
        Some err \<Rightarrow> Inl (InvalidObservabilityConfig err)
      | None \<Rightarrow> Inr (defaultCron (normalizeRedis (c\<lparr>Observability := Some ?ob\<rparr>))))"
    by (rule finishConfig_valid) simp
  show ?thesis
  proof (cases "Validate obs ?ob")
    case None
    with f assms Nil show ?thesis by simp
  next
    case (Some err)
    with f assms show ?thesis by simp
  qed
qed

lemma defaultCron_fields:
  "Cron (defaultCron c) = (case Cron c of None \<Rightarrow> Some DefaultCronConfig | Some cr \<Rightarrow> Some cr)"
  "Observability (defaultCron c) = Observability c"
  "Primary (defaultCron c) = Primary c"
  "Database (defaultCron c) = Database c"
  "Server (defaultCron c) = Server c"
  by (auto simp: defaultCron_def split: option.splits)

lemma normalizeRedis_fields:
  "Cron (normalizeRedis c) = Cron c"
  "Observability (normalizeRedis c) = Observability c"
  "Primary (normalizeRedis c) = Primary c"
  "Database (normalizeRedis c) = Database c"
  "Server (normalizeRedis c) = Server c"
  by (simp_all add: normalizeRedis_def)

lemma LoadConfig_Inr:
  assumes "LoadConfig obs fs environ = Inr c'"
  shows "\<exists>c. Unmarshal obs (Read ''TASKER_'' (CHR ''.'') envKey
                (loadDotEnvFiles fs environ [''.env'', ''apps/backend/.env''])) = Inr c \<and>
             finishConfig obs c = Inr c'"
  using assms by (auto simp: LoadConfig_def Let_def split: sum.splits)

lemma LoadConfig_populated:
  assumes "Unmarshal obs (Read ''TASKER_'' (CHR ''.'') envKey
                (loadDotEnvFiles fs environ [''.env'', ''apps/backend/.env''])) = Inr c"
  shows "LoadConfig obs fs environ = finishConfig obs c"
  using assms by (simp add: LoadConfig_def Let_def)

lemma Unmarshal_Inr:
  assumes "Unmarshal obs m = Inr c"
  shows "Cron c = snd (decodePtr ''cron'' decodeCronConfig (map_of m ''cron''))"
    and "Observability c = snd (decodePtr ''observability'' (decode obs) (map_of m ''observability''))"
    and "Server c = snd (decodeStruct ''server'' decodeServerConfig (map_of m ''server''))"
    and "Database c = snd (decodeStruct ''database'' decodeDatabaseConfig (map_of m ''database''))"
    and "fst (decodePtr ''cron'' decodeCronConfig (map_of m ''cron'')) = []"
    and "fst (decodePtr ''observability'' (decode obs) (map_of m ''observability'')) = []"
    and "fst (decodeStruct ''server'' decodeServerConfig (map_of m ''server'')) = []"
    and "fst (decodeStruct ''database'' decodeDatabaseConfig (map_of m ''database'')) = []"
  using assms by (auto simp: Unmarshal_def Let_def case_prod_beta split: if_splits)

lemma decodePtr_None_iff:
  assumes "fst (decodePtr name f data) = []"
  shows "snd (decodePtr name f data) = None \<longleftrightarrow> data = None"
  using assms by (auto simp: decodePtr_def case_prod_beta Let_def split: option.splits conf.splits)

lemma requiredString_empty: "requiredString path [] = [path]"
  by (simp add: requiredString_def)

lemma validateStruct_database_name:
  "Name (Database c) = [] \<Longrightarrow> ''Config.Database.Name'' \<in> set (validateStruct obs c)"
  by (simp add: validateStruct_def requiredString_empty)






lemma valueAt_update_same_Map:
  "valueAt (AList.update k (Map sub) m) (k # qs) = valueAt sub qs"
  by (simp add: update_conv')

lemma valueAt_update_same_Str:
  "valueAt (AList.update k (Str v) m) (k # qs) = (if qs = [] then Some (Str v) else None)"
  by (simp add: update_conv')








lemma Split_nonempty: "Split s sep \<noteq> []"
  by (cases s) (auto split: list.splits)




lemma collect_foldl_env:
  fixes cb :: "string \<Rightarrow> string" and acc :: "(string \<times> string) list" and env :: environ
  assumes "\<forall>(n, v) \<in> set env. CHR ''='' \<notin> set n" and np: "CHR ''='' \<notin> set prefix"
  shows "foldl (\<lambda>mp k.
        case SplitN k (CHR ''='') 2 of
          [name, val] \<Rightarrow> (let key = cb name in if key = [] then mp else AList.update key val mp)
        | _ \<Rightarrow> mp)
       acc (filter (\<lambda>k. HasPrefix k prefix) (Environ env))
     = foldl (\<lambda>mp nv. if HasPrefix (fst nv) prefix \<and> cb (fst nv) \<noteq> []
                       then AList.update (cb (fst nv)) (snd nv) mp else mp) acc env"
  using assms(1)
proof (induction env arbitrary: acc)
  case Nil
  then show ?case by (simp add: Environ_def)
next
  case (Cons e env)
  obtain n v where e: "e = (n, v)" by (cases e)
  with Cons.prems have eq: "CHR ''='' \<notin> set n" by simp
  from Cons.prems have rest: "\<forall>(n, v) \<in> set env. CHR ''='' \<notin> set n" by simp
  have p: "HasPrefix (n @ ''='' @ v) prefix \<longleftrightarrow> HasPrefix n prefix"
    using eq np by (rule HasPrefix_Environ_entry)
  have sp: "SplitN (n @ CHR ''='' # v) (CHR ''='') 2 = [n, v]"
    using eq by (rule SplitN_first)
  have en: "Environ (e # env) = (n @ ''='' @ v) # Environ env"
    by (simp add: Environ_def e)
  show ?case
  proof (cases "HasPrefix n prefix")
    case False
    with p show ?thesis unfolding en using Cons.IH [OF rest] by (simp add: e)
  next
    case True
    with p show ?thesis unfolding en using Cons.IH [OF rest] by (simp add: e sp Let_def)
  qed
qed









lemma decodeInt_Str:
  "fst (decodeInt n (Some (Str v))) = [] \<Longrightarrow>
   ParseInt (if v = [] then ''0'' else v) = Some (snd (decodeInt n (Some (Str v))))"
  by (cases "ParseInt (if v = [] then ''0'' else v)") (simp_all add: decodeInt_def)


lemma Unmarshal_Inr_sections:
  assumes "Unmarshal obs m = Inr c"
  shows "Primary c = snd (decodeStruct ''primary'' decodePrimary (map_of m ''primary''))"
    and "Auth c = snd (decodeStruct ''auth'' decodeAuthConfig (map_of m ''auth''))"
    and "Redis c = snd (decodeStruct ''redis'' decodeRedisConfig (map_of m ''redis''))"
    and "Integration c = snd (decodeStruct ''integration'' decodeIntegrationConfig
                                (map_of m ''integration''))"
    and "AWS c = snd (decodeStruct ''aws'' decodeAWSConfig (map_of m ''aws''))"
    and "fst (decodeStruct ''primary'' decodePrimary (map_of m ''primary'')) = []"
    and "fst (decodeStruct ''auth'' decodeAuthConfig (map_of m ''auth'')) = []"
    and "fst (decodeStruct ''redis'' decodeRedisConfig (map_of m ''redis'')) = []"
    and "fst (decodeStruct ''integration'' decodeIntegrationConfig (map_of m ''integration'')) = []"
    and "fst (decodeStruct ''aws'' decodeAWSConfig (map_of m ''aws'')) = []"
  using assms by (auto simp: Unmarshal_def Let_def case_prod_beta split: if_splits)

lemma decodeStruct_Map: "decodeStruct n f (Some (Map sub)) = f sub"
  by (simp add: decodeStruct_def)

lemma valueAt_two:
  "valueAt m [a, b] = Some (Str v) \<longleftrightarrow>
     (\<exists>sub. map_of m a = Some (Map sub) \<and> map_of sub b = Some (Str v))"
  by (auto split: option.splits conf.splits)








lemma decodePtr_Map: "decodePtr n f (Some (Map sub)) = (fst (f sub), Some (snd (f sub)))"
  by (simp add: decodePtr_def case_prod_beta)

lemma cron_fields:
  assumes s: "map_of m ''cron'' = Some (Map sub)" and u: "Unmarshal obs m = Inr c"
  shows "Cron c = Some (snd (decodeCronConfig sub))"
    and "map_of sub ''archive_days_threshold'' = Some (Str v) \<Longrightarrow>
           ParseInt (if v = [] then ''0'' else v)
             = Some (ArchiveDaysThreshold (snd (decodeCronConfig sub)))"
    and "map_of sub ''batch_size'' = Some (Str v) \<Longrightarrow>
           ParseInt (if v = [] then ''0'' else v) = Some (BatchSize (snd (decodeCronConfig sub)))"
    and "map_of sub ''reminder_hours'' = Some (Str v) \<Longrightarrow>
           ParseInt (if v = [] then ''0'' else v) = Some (ReminderHours (snd (decodeCronConfig sub)))"
    and "map_of sub ''max_todos_per_user_notification'' = Some (Str v) \<Longrightarrow>
           ParseInt (if v = [] then ''0'' else v)
             = Some (MaxTodosPerUserNotification (snd (decodeCronConfig sub)))"
proof -
  from Unmarshal_Inr(1) [OF u] s show "Cron c = Some (snd (decodeCronConfig sub))"
    by (simp add: decodePtr_Map)
  from Unmarshal_Inr(5) [OF u] s have e: "fst (decodeCronConfig sub) = []"
    by (simp add: decodePtr_Map)
  show "map_of sub ''archive_days_threshold'' = Some (Str v) \<Longrightarrow>
           ParseInt (if v = [] then ''0'' else v)
             = Some (ArchiveDaysThreshold (snd (decodeCronConfig sub)))"
    using e decodeInt_Str [of "''cron.archive_days_threshold''" v]
    by (simp add: decodeCronConfig_def case_prod_beta)
  show "map_of sub ''batch_size'' = Some (Str v) \<Longrightarrow>
           ParseInt (if v = [] then ''0'' else v) = Some (BatchSize (snd (decodeCronConfig sub)))"
    using e decodeInt_Str [of "''cron.batch_size''" v]
    by (simp add: decodeCronConfig_def case_prod_beta)
  show "map_of sub ''reminder_hours'' = Some (Str v) \<Longrightarrow>
           ParseInt (if v = [] then ''0'' else v) = Some (ReminderHours (snd (decodeCronConfig sub)))"
    using e decodeInt_Str [of "''cron.reminder_hours''" v]
    by (simp add: decodeCronConfig_def case_prod_beta)
  show "map_of sub ''max_todos_per_user_notification'' = Some (Str v) \<Longrightarrow>
           ParseInt (if v = [] then ''0'' else v)
             = Some (MaxTodosPerUserNotification (snd (decodeCronConfig sub)))"
    using e decodeInt_Str [of "''cron.max_todos_per_user_notification''" v]
    by (simp add: decodeCronConfig_def case_prod_beta)
qed

lemma observability_section:
  assumes s: "map_of m ''observability'' = Some (Map sub)" and u: "Unmarshal obs m = Inr c"
  shows "Observability c = Some (snd (decode obs sub))"
  using Unmarshal_Inr(2) [OF u] s by (simp add: decodePtr_Map)





lemma decodePtr_Inr_Map:
  assumes "fst (decodePtr name f data) = []" and "data \<noteq> None"
  shows "\<exists>sub. data = Some (Map sub)"
  using assms by (auto simp: decodePtr_def split: option.splits conf.splits)



lemma finishConfig_sections:
  assumes f: "finishConfig obs c = Inr c'"
  shows "Primary c' = Primary c" and "Server c' = Server c" and "Database c' = Database c"
    and "Auth c' = Auth c" and "Integration c' = Integration c" and "AWS c' = AWS c"
    and "Redis c' = (Redis c)\<lparr>Address := normalizeRedisAddress (Address (Redis c))\<rparr>"
    and "Cron c' = (case Cron c of None \<Rightarrow> Some DefaultCronConfig | Some cr \<Rightarrow> Some cr)"
proof -
  from finishConfig_Inr [OF f]
  have c': "c' = defaultCron (normalizeRedis (c\<lparr>Observability :=
            Some ((case Observability c of None \<Rightarrow> DefaultObservabilityConfig obs | Some ob \<Rightarrow> ob)
               \<lparr>ServiceName := ''tasker'', Environment := Env (Primary c)\<rparr>)\<rparr>))"
    by blast
  show "Primary c' = Primary c" and "Server c' = Server c" and "Database c' = Database c"
    and "Auth c' = Auth c" and "Integration c' = Integration c" and "AWS c' = AWS c"
    and "Redis c' = (Redis c)\<lparr>Address := normalizeRedisAddress (Address (Redis c))\<rparr>"
    and "Cron c' = (case Cron c of None \<Rightarrow> Some DefaultCronConfig | Some cr \<Rightarrow> Some cr)"
    unfolding c' by (simp_all add: defaultCron_def normalizeRedis_def split: option.splits)
qed



lemma assign_keeps:
  "map_of m n \<noteq> None \<Longrightarrow> map_of (assign ks v m) n \<noteq> None"
proof (induction ks v m rule: assign.induct)
  case (1 v "next")
  then show ?case by simp
next
  case (2 k v "next")
  then show ?case by (simp add: update_conv')
next
  case (3 k k' ks v "next")
  show ?case
  proof (cases "map_of next k")
    case None
    with 3 show ?thesis by (simp add: update_conv')
  next
    case (Some c)
    show ?thesis
    proof (cases c)
      case (Str s)
      with Some 3 show ?thesis by simp
    next
      case (Map sub)
      with Some 3 show ?thesis by (simp add: update_conv')
    qed
  qed
qed

lemma assign_head:
  "ks \<noteq> [] \<Longrightarrow> map_of (assign ks v m) (hd ks) \<noteq> None"
proof (induction ks v m rule: assign.induct)
  case (1 v "next")
  then show ?case by simp
next
  case (2 k v "next")
  then show ?case by (simp add: update_conv')
next
  case (3 k k' ks v "next")
  show ?case
  proof (cases "map_of next k")
    case None
    then show ?thesis by (simp add: update_conv')
  next
    case (Some c)
    show ?thesis
    proof (cases c)
      case (Str s)
      with Some have "map_of next k \<noteq> None" by simp
      then have "map_of (assign (k' # ks) v next) k \<noteq> None" by (rule assign_keeps)
      with Some Str show ?thesis by simp
    next
      case (Map sub)
      with Some show ?thesis by (simp add: update_conv')
    qed
  qed
qed

lemma foldl_assign_keeps:
  "map_of out n \<noteq> None \<Longrightarrow>
   map_of (foldl (\<lambda>out (k, v). assign (Split k delim) v out) out kvs) n \<noteq> None"
proof (induction kvs arbitrary: out)
  case Nil
  then show ?case by simp
next
  case (Cons kv kvs)
  obtain k v where kv: "kv = (k, v)" by (cases kv)
  from Cons.prems have "map_of (assign (Split k delim) v out) n \<noteq> None" by (rule assign_keeps)
  then show ?case using Cons.IH kv by simp
qed

lemma foldl_assign_head:
  "(k, v) \<in> set kvs \<Longrightarrow>
   map_of (foldl (\<lambda>out (k, v). assign (Split k delim) v out) out kvs) (hd (Split k delim)) \<noteq> None"
proof (induction kvs arbitrary: out)
  case Nil
  then show ?case by simp
next
  case (Cons kv kvs)
  obtain k' v' where kv: "kv = (k', v')" by (cases kv)
  show ?case
  proof (cases "(k, v) = kv")
    case True
    have "map_of (assign (Split k delim) v out) (hd (Split k delim)) \<noteq> None"
      using Split_nonempty by (rule assign_head)
    then have "map_of (foldl (\<lambda>out (k, v). assign (Split k delim) v out)
        (assign (Split k delim) v out) kvs) (hd (Split k delim)) \<noteq> None"
      by (rule foldl_assign_keeps)
    with True [symmetric] show ?thesis by simp
  next
    case False
    with Cons.prems have "(k, v) \<in> set kvs" by simp
    then show ?thesis using Cons.IH kv by simp
  qed
qed

lemma Unflatten_present:
  "(k, v) \<in> set kvs \<Longrightarrow> map_of (Unflatten kvs delim) (hd (Split k delim)) \<noteq> None"
  unfolding Unflatten_def by (rule foldl_assign_head)

lemma collect_fold_keeps:
  fixes cb :: "string \<Rightarrow> string" and acc :: "(string \<times> string) list" and env :: environ
  shows "map_of acc key \<noteq> None \<Longrightarrow>
     map_of (foldl (\<lambda>mp nv. if HasPrefix (fst nv) prefix \<and> cb (fst nv) \<noteq> []
                       then AList.update (cb (fst nv)) (snd nv) mp else mp) acc env) key \<noteq> None"
proof (induction env arbitrary: acc)
  case Nil
  then show ?case by simp
next
  case (Cons e env)
  define G :: "(string \<times> string) list \<Rightarrow> string \<times> string \<Rightarrow> (string \<times> string) list"
    where "G = (\<lambda>mp nv. if HasPrefix (fst nv) prefix \<and> cb (fst nv) \<noteq> []
                       then AList.update (cb (fst nv)) (snd nv) mp else mp)"
  from Cons.prems have "map_of (G acc e) key \<noteq> None"
    by (simp add: G_def update_conv')
  then have "map_of (foldl G (G acc e) env) key \<noteq> None"
    unfolding G_def by (rule Cons.IH)
  then show ?case unfolding G_def by simp
qed

lemma collect_fold_present:
  fixes cb :: "string \<Rightarrow> string" and acc :: "(string \<times> string) list" and env :: environ
  assumes m: "(name, val) \<in> set env" and hp: "HasPrefix name prefix" and ne: "cb name \<noteq> []"
  shows "map_of (foldl (\<lambda>mp nv. if HasPrefix (fst nv) prefix \<and> cb (fst nv) \<noteq> []
                       then AList.update (cb (fst nv)) (snd nv) mp else mp) acc env) (cb name)
       \<noteq> None"
  using m
proof (induction env arbitrary: acc)
  case Nil
  then show ?case by simp
next
  case (Cons e env)
  define G :: "(string \<times> string) list \<Rightarrow> string \<times> string \<Rightarrow> (string \<times> string) list"
    where "G = (\<lambda>mp nv. if HasPrefix (fst nv) prefix \<and> cb (fst nv) \<noteq> []
                       then AList.update (cb (fst nv)) (snd nv) mp else mp)"
  have "map_of (foldl G (G acc e) env) (cb name) \<noteq> None"
  proof (cases "e = (name, val)")
    case True
    then have "map_of (G acc e) (cb name) \<noteq> None"
      using hp ne by (simp add: G_def update_conv')
    then show ?thesis unfolding G_def by (rule collect_fold_keeps)
  next
    case False
    with Cons.prems have "(name, val) \<in> set env" by simp
    then show ?thesis unfolding G_def by (rule Cons.IH)
  qed
  then show ?case unfolding G_def by simp
qed

lemma Read_present:
  assumes eq: "\<forall>(n, v) \<in> set env. CHR ''='' \<notin> set n" and np: "CHR ''='' \<notin> set prefix"
    and m: "(name, val) \<in> set env" and hp: "HasPrefix name prefix" and ne: "cb name \<noteq> []"
  shows "map_of (Read prefix delim cb env) (hd (Split (cb name) delim)) \<noteq> None"
proof -
  have "map_of (collect prefix cb env) (cb name) \<noteq> None"
    unfolding collect_def collect_foldl_env [OF eq np]
    using m hp ne by (rule collect_fold_present)
  then obtain v where "(cb name, v) \<in> set (collect prefix cb env)"
    by (auto dest: map_of_SomeD)
  then show ?thesis unfolding Read_def by (rule Unflatten_present)
qed

lemma decodeInt_None: "decodeInt n None = ([], 0)"
  by (simp add: decodeInt_def)

lemma decodeCronConfig_absent:
  "map_of sub ''archive_days_threshold'' = None \<Longrightarrow>
     ArchiveDaysThreshold (snd (decodeCronConfig sub)) = 0"
  "map_of sub ''batch_size'' = None \<Longrightarrow> BatchSize (snd (decodeCronConfig sub)) = 0"
  "map_of sub ''reminder_hours'' = None \<Longrightarrow> ReminderHours (snd (decodeCronConfig sub)) = 0"
  "map_of sub ''max_todos_per_user_notification'' = None \<Longrightarrow>
     MaxTodosPerUserNotification (snd (decodeCronConfig sub)) = 0"
  by (simp_all add: decodeCronConfig_def case_prod_beta decodeInt_None)

lemma requiredString_Nil_iff: "requiredString path s = [] \<longleftrightarrow> s \<noteq> []"
  by (simp add: requiredString_def)

lemma validateStruct_redis_address:
  "validateStruct obs c = [] \<Longrightarrow> Address (Redis c) \<noteq> []"
  by (simp add: validateStruct_def requiredString_Nil_iff)

lemma decodeString_cases:
  assumes "fst (decodeString n data) = []" and "snd (decodeString n data) \<noteq> []"
  shows "data = Some (Str (snd (decodeString n data)))"
  using assms by (auto simp: decodeString_def split: option.splits conf.splits)

lemma redis_address_collected:
  assumes u: "Unmarshal obs m = Inr c" and a: "Address (Redis c) \<noteq> []"
  shows "valueAt m [''redis'', ''address''] = Some (Str (Address (Redis c)))"
proof -
  note r = Unmarshal_Inr_sections(3) [OF u] and e = Unmarshal_Inr_sections(8) [OF u]
  have z: "Address (snd (decodeRedisConfig [])) = []"
    by (simp add: decodeRedisConfig_def case_prod_beta decodeString_def)
  from r e a z obtain sub where s: "map_of m ''redis'' = Some (Map sub)"
    by (cases "map_of m ''redis''"; cases "the (map_of m ''redis'')")
      (auto simp: decodeStruct_def)
  from r e s have c: "Redis c = snd (decodeRedisConfig sub)" and f: "fst (decodeRedisConfig sub) = []"
    by (simp_all add: decodeStruct_Map)
  from f have "fst (decodeString ''redis.address'' (map_of sub ''address'')) = []"
    by (simp add: decodeRedisConfig_def case_prod_beta)
  moreover from a c have "snd (decodeString ''redis.address'' (map_of sub ''address'')) \<noteq> []"
    by (simp add: decodeRedisConfig_def case_prod_beta)
  ultimately have "map_of sub ''address''
      = Some (Str (snd (decodeString ''redis.address'' (map_of sub ''address''))))"
    by (rule decodeString_cases)
  moreover from c have "Address (Redis c) = snd (decodeString ''redis.address'' (map_of sub ''address''))"
    by (simp add: decodeRedisConfig_def case_prod_beta)
  ultimately have "map_of sub ''address'' = Some (Str (Address (Redis c)))" by simp
  with s show ?thesis unfolding valueAt_two by blast
qed


section \<open>The properties of the specification\<close>




text \<open>
  C2, as the specification states it: normalizing twice gives the same as normalizing
  once, for all strings. The code strips one scheme prefix only, and trims white space
  before it strips: at the address \<open>redis://redis://cache:6379\<close> the first pass leaves
  \<open>redis://cache:6379\<close> and the second pass \<open>cache:6379\<close>.
\<close>

theorem normalize_twice_differs:
  "normalizeRedisAddress ''redis://redis://cache:6379'' = ''redis://cache:6379'' \<and>
   normalizeRedisAddress (normalizeRedisAddress ''redis://redis://cache:6379'') = ''cache:6379'' \<and>
   normalizeRedisAddress (normalizeRedisAddress ''redis://redis://cache:6379'')
     \<noteq> normalizeRedisAddress ''redis://redis://cache:6379''"
  by code_simp

text \<open>
  C2, amended: normalizing twice gives the same as normalizing once exactly for the
  addresses whose normalized form begins neither with white space nor with one of the
  two scheme prefixes.
\<close>

theorem normalize_idempotent_iff:
  "normalizeRedisAddress (normalizeRedisAddress x) = normalizeRedisAddress x \<longleftrightarrow>
     spaceWidth (normalizeRedisAddress x) = 0 \<and>
     \<not> HasPrefix (normalizeRedisAddress x) ''redis://'' \<and>
     \<not> HasPrefix (normalizeRedisAddress x) ''rediss://''"
proof -
  let ?r = "normalizeRedisAddress x"
  have l: "lastSpaceWidth ?r = 0" by (rule lastSpaceWidth_normalizeRedisAddress)
  show ?thesis
  proof
    assume idem: "normalizeRedisAddress ?r = ?r"
    show "spaceWidth ?r = 0 \<and> \<not> HasPrefix ?r ''redis://'' \<and> \<not> HasPrefix ?r ''rediss://''"
    proof (rule ccontr)
      assume "\<not> ?thesis"
      then have "length (normalizeRedisAddress ?r) < length ?r"
        using l by (intro normalizeRedisAddress_shrinks) auto
      with idem show False by simp
    qed
  next
    assume "spaceWidth ?r = 0 \<and> \<not> HasPrefix ?r ''redis://'' \<and> \<not> HasPrefix ?r ''rediss://''"
    with l show "normalizeRedisAddress ?r = ?r" by (simp add: normalizeRedisAddress_fix)
  qed
qed

theorem normalize_idempotent_iff_witness:
  "normalizeRedisAddress (normalizeRedisAddress ''  rediss://cache:6379 '')
     = normalizeRedisAddress ''  rediss://cache:6379 ''"
proof -
  have "spaceWidth (normalizeRedisAddress ''  rediss://cache:6379 '') = 0 \<and>
     \<not> HasPrefix (normalizeRedisAddress ''  rediss://cache:6379 '') ''redis://'' \<and>
     \<not> HasPrefix (normalizeRedisAddress ''  rediss://cache:6379 '') ''rediss://''"
    by code_simp
  then show ?thesis
    using normalize_idempotent_iff [of "''  rediss://cache:6379 ''"] by blast
qed

text \<open>
  C3: a configuration is returned only when the populated address of the cache is not
  empty, and its Redis section is then the populated one with the address normalized
  and nothing else changed: the address is trimmed; then exactly the prefix \<open>redis://\<close> or
  \<open>rediss://\<close> is removed when the trimmed address begins with it, and the rest is kept
  as it is; a trimmed address that begins with neither is the result. For \<open>LoadConfig\<close>
  the populated address is the value collected at \<open>redis.address\<close>. \<open>redis://cache:6379\<close>
  and \<open>rediss://cache:6379\<close> both give \<open>cache:6379\<close>, and the rest of \<open>LoadConfig\<close> cannot
  tell the two apart: it ends the same way on both.
\<close>

theorem cache_address_normalized:
  "(finishConfig obs c = Inr c' \<longrightarrow>
      Address (Redis c) \<noteq> [] \<and>
      Redis c' = (Redis c)\<lparr>Address := normalizeRedisAddress (Address (Redis c))\<rparr> \<and>
      (\<forall>rest. TrimSpace (Address (Redis c)) = ''redis://'' @ rest \<longrightarrow> Address (Redis c') = rest) \<and>
      (\<forall>rest. TrimSpace (Address (Redis c)) = ''rediss://'' @ rest \<longrightarrow> Address (Redis c') = rest) \<and>
      (\<not> HasPrefix (TrimSpace (Address (Redis c))) ''redis://'' \<and>
       \<not> HasPrefix (TrimSpace (Address (Redis c))) ''rediss://''
         \<longrightarrow> Address (Redis c') = TrimSpace (Address (Redis c)))) \<and>
   (LoadConfig obs fs environ = Inr l \<longrightarrow>
      (\<exists>x. valueAt (Read ''TASKER_'' (CHR ''.'') envKey
                (loadDotEnvFiles fs environ [''.env'', ''apps/backend/.env'']))
              [''redis'', ''address''] = Some (Str x) \<and>
           x \<noteq> [] \<and> Address (Redis l) = normalizeRedisAddress x)) \<and>
   (\<forall>x rest. x \<noteq> [] \<and> TrimSpace x = ''redis://'' @ rest \<longrightarrow> normalizeRedisAddress x = rest) \<and>
   (\<forall>x rest. x \<noteq> [] \<and> TrimSpace x = ''rediss://'' @ rest \<longrightarrow> normalizeRedisAddress x = rest) \<and>
   (\<forall>x. \<not> HasPrefix (TrimSpace x) ''redis://'' \<and> \<not> HasPrefix (TrimSpace x) ''rediss://''
      \<longrightarrow> normalizeRedisAddress x = TrimSpace x) \<and>
   normalizeRedisAddress ''redis://cache:6379'' = ''cache:6379'' \<and>
   normalizeRedisAddress ''rediss://cache:6379'' = ''cache:6379'' \<and>
   (\<forall>obs (c :: 'o Config) r.
      finishConfig obs (c\<lparr>Redis := r\<lparr>Address := ''rediss://cache:6379''\<rparr>\<rparr>)
        = finishConfig obs (c\<lparr>Redis := r\<lparr>Address := ''redis://cache:6379''\<rparr>\<rparr>))"
proof -
  have a: "\<forall>x rest. x \<noteq> [] \<and> TrimSpace x = ''redis://'' @ rest \<longrightarrow> normalizeRedisAddress x = rest"
    by (simp add: normalizeRedisAddress_def HasPrefix_def TrimPrefix_def)
  have b: "\<forall>x rest. x \<noteq> [] \<and> TrimSpace x = ''rediss://'' @ rest \<longrightarrow> normalizeRedisAddress x = rest"
    by (simp add: normalizeRedisAddress_def HasPrefix_def TrimPrefix_def)
  have e: "TrimSpace [] = []"
    by (simp add: TrimSpace_def TrimLeftSpace.simps TrimRightSpace.simps spaceWidth_def
        lastSpaceWidth_def whiteSpace_def HasPrefix_def HasSuffix_def)
  have c: "\<forall>x. \<not> HasPrefix (TrimSpace x) ''redis://'' \<and> \<not> HasPrefix (TrimSpace x) ''rediss://''
      \<longrightarrow> normalizeRedisAddress x = TrimSpace x"
    using e by (simp add: normalizeRedisAddress_def)
  have d1: "normalizeRedisAddress ''redis://cache:6379'' = ''cache:6379''" by code_simp
  have d2: "normalizeRedisAddress ''rediss://cache:6379'' = ''cache:6379''" by code_simp
  have f: "finishConfig obs (c\<lparr>Redis := r\<lparr>Address := ''rediss://cache:6379''\<rparr>\<rparr>)
        = finishConfig obs (c\<lparr>Redis := r\<lparr>Address := ''redis://cache:6379''\<rparr>\<rparr>)"
    for obs :: "'o observability" and c :: "'o Config" and r
  proof -
    let ?c1 = "c\<lparr>Redis := r\<lparr>Address := ''rediss://cache:6379''\<rparr>\<rparr>"
    let ?c2 = "c\<lparr>Redis := r\<lparr>Address := ''redis://cache:6379''\<rparr>\<rparr>"
    have v: "validateStruct obs ?c1 = validateStruct obs ?c2"
      by (simp add: validateStruct_def requiredString_nonempty)
    have n: "normalizeRedis (?c1\<lparr>Observability := Some ob\<rparr>)
        = normalizeRedis (?c2\<lparr>Observability := Some ob\<rparr>)" for ob
      by (simp add: normalizeRedis_def d1 d2)
    show "finishConfig obs ?c1 = finishConfig obs ?c2"
    proof (cases "validateStruct obs ?c2")
      case Nil
      let ?ob = "(case Observability c of None \<Rightarrow> DefaultObservabilityConfig obs | Some ob \<Rightarrow> ob)
               \<lparr>ServiceName := ''tasker'', Environment := Env (Primary c)\<rparr>"
      from Nil have "finishConfig obs ?c2 =
         (case Validate obs ?ob of
            Some err \<Rightarrow> Inl (InvalidObservabilityConfig err)
          | None \<Rightarrow> Inr (defaultCron (normalizeRedis (?c2\<lparr>Observability := Some ?ob\<rparr>))))"
        by (rule finishConfig_valid) simp
      moreover from Nil v have "finishConfig obs ?c1 =
         (case Validate obs ?ob of
            Some err \<Rightarrow> Inl (InvalidObservabilityConfig err)
          | None \<Rightarrow> Inr (defaultCron (normalizeRedis (?c1\<lparr>Observability := Some ?ob\<rparr>))))"
        by (intro finishConfig_valid) simp_all
      ultimately show ?thesis by (simp only: n)
    next
      case (Cons e es)
      with v show ?thesis
        by (simp add: finishConfig_invalid)
    qed
  qed
  have g: "Address (Redis c) \<noteq> [] \<and>
      Redis c' = (Redis c)\<lparr>Address := normalizeRedisAddress (Address (Redis c))\<rparr> \<and>
      (\<forall>rest. TrimSpace (Address (Redis c)) = ''redis://'' @ rest \<longrightarrow> Address (Redis c') = rest) \<and>
      (\<forall>rest. TrimSpace (Address (Redis c)) = ''rediss://'' @ rest \<longrightarrow> Address (Redis c') = rest) \<and>
      (\<not> HasPrefix (TrimSpace (Address (Redis c))) ''redis://'' \<and>
       \<not> HasPrefix (TrimSpace (Address (Redis c))) ''rediss://''
         \<longrightarrow> Address (Redis c') = TrimSpace (Address (Redis c)))"
    if fc: "finishConfig obs c = Inr c'"
  proof -
    from finishConfig_Inr [OF fc] have "validateStruct obs c = []" by (rule conjunct1)
    then have ne: "Address (Redis c) \<noteq> []" by (rule validateStruct_redis_address)
    have r: "Redis c' = (Redis c)\<lparr>Address := normalizeRedisAddress (Address (Redis c))\<rparr>"
      using fc by (rule finishConfig_sections(7))
    then have ad: "Address (Redis c') = normalizeRedisAddress (Address (Redis c))" by simp
    from ne r a b c show ?thesis unfolding ad by blast
  qed
  have h: "\<exists>x. valueAt (Read ''TASKER_'' (CHR ''.'') envKey
                (loadDotEnvFiles fs environ [''.env'', ''apps/backend/.env'']))
              [''redis'', ''address''] = Some (Str x) \<and>
           x \<noteq> [] \<and> Address (Redis l) = normalizeRedisAddress x"
    if lc: "LoadConfig obs fs environ = Inr l"
  proof -
    from lc obtain c0 where un: "Unmarshal obs (Read ''TASKER_'' (CHR ''.'') envKey
                (loadDotEnvFiles fs environ [''.env'', ''apps/backend/.env''])) = Inr c0"
      and fc: "finishConfig obs c0 = Inr l"
      using LoadConfig_Inr by blast
    from finishConfig_Inr [OF fc] have "validateStruct obs c0 = []" by (rule conjunct1)
    then have ne: "Address (Redis c0) \<noteq> []" by (rule validateStruct_redis_address)
    from un ne have "valueAt (Read ''TASKER_'' (CHR ''.'') envKey
                (loadDotEnvFiles fs environ [''.env'', ''apps/backend/.env'']))
              [''redis'', ''address''] = Some (Str (Address (Redis c0)))"
      by (rule redis_address_collected)
    moreover from finishConfig_sections(7) [OF fc]
    have "Address (Redis l) = normalizeRedisAddress (Address (Redis c0))" by simp
    ultimately show ?thesis using ne by blast
  qed
  from a b c d1 d2 f g h show ?thesis by blast
qed

theorem cache_address_normalized_witness:
  "(\<exists>c'. finishConfig exampleObservability
            (exampleConfig\<lparr>Redis := \<lparr>Address = ''  redis://10.0.0.5:6380 '', RedisConfig.Password = ''pw''\<rparr>\<rparr>)
          = Inr c' \<and>
         Redis c' = \<lparr>Address = ''10.0.0.5:6380'', RedisConfig.Password = ''pw''\<rparr>) \<and>
   (\<exists>c'. finishConfig exampleObservability
            (exampleConfig\<lparr>Redis := \<lparr>Address = ''rediss://10.0.0.5:6380'', RedisConfig.Password = []\<rparr>\<rparr>)
          = Inr c' \<and>
         Address (Redis c') = ''10.0.0.5:6380'') \<and>
   (\<exists>c'. finishConfig exampleObservability
            (exampleConfig\<lparr>Redis := \<lparr>Address = '' http://10.0.0.5:6380 '', RedisConfig.Password = []\<rparr>\<rparr>)
          = Inr c' \<and>
         Address (Redis c') = ''http://10.0.0.5:6380'') \<and>
   (\<exists>l. LoadConfig exampleObservability noFiles
            ((''TASKER_SERVER.PORT'', ''8080'') # (''TASKER_DATABASE.NAME'', ''tasker'') #
             AList.update ''TASKER_REDIS.ADDRESS'' '' rediss://10.0.0.5:6380 '' exampleEnviron)
          = Inr l \<and>
         Address (Redis l) = ''10.0.0.5:6380'')"
proof -
  let ?ob = "Some \<lparr>ServiceName = ''tasker'', Environment = ''local'', settings = ()\<rparr>"
  let ?a1 = "exampleConfig\<lparr>Redis := \<lparr>Address = ''  redis://10.0.0.5:6380 '', RedisConfig.Password = ''pw''\<rparr>\<rparr>"
  let ?b1 = "exampleConfig\<lparr>Redis := \<lparr>Address = ''10.0.0.5:6380'', RedisConfig.Password = ''pw''\<rparr>,
               Observability := ?ob\<rparr>"
  let ?a2 = "exampleConfig\<lparr>Redis := \<lparr>Address = ''rediss://10.0.0.5:6380'', RedisConfig.Password = []\<rparr>\<rparr>"
  let ?b2 = "exampleConfig\<lparr>Redis := \<lparr>Address = ''10.0.0.5:6380'', RedisConfig.Password = []\<rparr>,
               Observability := ?ob\<rparr>"
  let ?a3 = "exampleConfig\<lparr>Redis := \<lparr>Address = '' http://10.0.0.5:6380 '', RedisConfig.Password = []\<rparr>\<rparr>"
  let ?b3 = "exampleConfig\<lparr>Redis := \<lparr>Address = ''http://10.0.0.5:6380'', RedisConfig.Password = []\<rparr>,
               Observability := ?ob\<rparr>"
  let ?env = "(''TASKER_SERVER.PORT'', ''8080'') # (''TASKER_DATABASE.NAME'', ''tasker'') #
             AList.update ''TASKER_REDIS.ADDRESS'' '' rediss://10.0.0.5:6380 '' exampleEnviron"
  let ?l = "exampleConfig\<lparr>Redis := \<lparr>Address = ''10.0.0.5:6380'', RedisConfig.Password = []\<rparr>,
               Observability := ?ob, Cron := Some DefaultCronConfig\<rparr>"
  have f1: "finishConfig exampleObservability ?a1 = Inr ?b1" by code_simp
  have f2: "finishConfig exampleObservability ?a2 = Inr ?b2" by code_simp
  have f3: "finishConfig exampleObservability ?a3 = Inr ?b3" by code_simp
  have f4: "LoadConfig exampleObservability noFiles ?env = Inr ?l" by code_simp
  note t1 = cache_address_normalized [where obs = exampleObservability and c = ?a1 and c' = ?b1,
      THEN conjunct1, THEN mp, OF f1]
  note t2 = cache_address_normalized [where obs = exampleObservability and c = ?a2 and c' = ?b2,
      THEN conjunct1, THEN mp, OF f2]
  note t3 = cache_address_normalized [where obs = exampleObservability and c = ?a3 and c' = ?b3,
      THEN conjunct1, THEN mp, OF f3]
  note t4 = cache_address_normalized [where obs = exampleObservability and fs = noFiles
      and environ = ?env and l = ?l, THEN conjunct2, THEN conjunct1, THEN mp, OF f4]
  have g1: "Redis ?b1 = \<lparr>Address = ''10.0.0.5:6380'', RedisConfig.Password = ''pw''\<rparr>"
  proof -
    have n: "normalizeRedisAddress ''  redis://10.0.0.5:6380 '' = ''10.0.0.5:6380''" by code_simp
    from t1 have "Redis ?b1 = (Redis ?a1)\<lparr>Address := normalizeRedisAddress (Address (Redis ?a1))\<rparr>"
      by (rule conjunct2 [THEN conjunct1])
    then show ?thesis by (simp add: n)
  qed
  have g2: "Address (Redis ?b2) = ''10.0.0.5:6380''"
  proof -
    have "TrimSpace (Address (Redis ?a2)) = ''rediss://'' @ ''10.0.0.5:6380''" by code_simp
    moreover from t2
    have "\<forall>rest. TrimSpace (Address (Redis ?a2)) = ''rediss://'' @ rest \<longrightarrow> Address (Redis ?b2) = rest"
      by (rule conjunct2 [THEN conjunct2, THEN conjunct2, THEN conjunct1])
    ultimately show ?thesis by blast
  qed
  have g3: "Address (Redis ?b3) = ''http://10.0.0.5:6380''"
  proof -
    have h: "\<not> HasPrefix (TrimSpace (Address (Redis ?a3))) ''redis://'' \<and>
       \<not> HasPrefix (TrimSpace (Address (Redis ?a3))) ''rediss://''"
      by code_simp
    have s: "TrimSpace (Address (Redis ?a3)) = ''http://10.0.0.5:6380''" by code_simp
    from t3 have "\<not> HasPrefix (TrimSpace (Address (Redis ?a3))) ''redis://'' \<and>
       \<not> HasPrefix (TrimSpace (Address (Redis ?a3))) ''rediss://''
         \<longrightarrow> Address (Redis ?b3) = TrimSpace (Address (Redis ?a3))"
      by (rule conjunct2 [THEN conjunct2, THEN conjunct2, THEN conjunct2])
    from this h have "Address (Redis ?b3) = TrimSpace (Address (Redis ?a3))" by (rule mp)
    then show ?thesis unfolding s .
  qed
  have g4: "Address (Redis ?l) = ''10.0.0.5:6380''"
  proof -
    have v: "valueAt (Read ''TASKER_'' (CHR ''.'') envKey
                (loadDotEnvFiles noFiles ?env [''.env'', ''apps/backend/.env'']))
              [''redis'', ''address''] = Some (Str '' rediss://10.0.0.5:6380 '')"
      by code_simp
    have n: "normalizeRedisAddress '' rediss://10.0.0.5:6380 '' = ''10.0.0.5:6380''" by code_simp
    from t4 v have "Address (Redis ?l) = normalizeRedisAddress '' rediss://10.0.0.5:6380 ''"
      by auto
    then show ?thesis unfolding n .
  qed
  from f1 g1 have r1: "\<exists>c'. finishConfig exampleObservability ?a1 = Inr c' \<and>
      Redis c' = \<lparr>Address = ''10.0.0.5:6380'', RedisConfig.Password = ''pw''\<rparr>"
    by blast
  from f2 g2 have r2: "\<exists>c'. finishConfig exampleObservability ?a2 = Inr c' \<and>
      Address (Redis c') = ''10.0.0.5:6380''"
    by blast
  from f3 g3 have r3: "\<exists>c'. finishConfig exampleObservability ?a3 = Inr c' \<and>
      Address (Redis c') = ''http://10.0.0.5:6380''"
    by blast
  from f4 g4 have r4: "\<exists>l. LoadConfig exampleObservability noFiles ?env = Inr l \<and>
      Address (Redis l) = ''10.0.0.5:6380''"
    by blast
  from r1 r2 r3 r4 show ?thesis by (intro conjI)
qed

text \<open>
  C4, as the specification states it: an optional section is replaced by its default
  exactly when nothing was supplied for any of its fields, the populated value being the
  zero value. The sections are pointers, and \<open>mapstructure\<close> allocates the struct as soon
  as the collected map has the key of the section. With \<open>TASKER_CRON.FOO=1\<close>, which
  names no field of the section, and with \<open>TASKER_CRON.BATCH_SIZE=\<close>, whose value is
  empty, every field of the populated struct is zero, the pointer is not nil, and
  \<open>LoadConfig\<close> returns the section with all its fields zero, not the default.
\<close>

theorem unsupplied_cron_fields_not_defaulted:
  "valueAt (Read ''TASKER_'' (CHR ''.'') envKey
      ((''TASKER_CRON.FOO'', ''1'') # (''TASKER_SERVER.PORT'', ''8080'') #
       (''TASKER_DATABASE.NAME'', ''tasker'') # exampleEnviron))
      [''cron''] = Some (Map [(''foo'', Str ''1'')]) \<and>
   LoadConfig exampleObservability noFiles
      ((''TASKER_CRON.FOO'', ''1'') # (''TASKER_SERVER.PORT'', ''8080'') #
       (''TASKER_DATABASE.NAME'', ''tasker'') # exampleEnviron)
     = Inr (exampleConfig
         \<lparr>Observability := Some \<lparr>ServiceName = ''tasker'', Environment = ''local'', settings = ()\<rparr>,
          Cron := Some \<lparr>ArchiveDaysThreshold = 0, BatchSize = 0, ReminderHours = 0,
                        MaxTodosPerUserNotification = 0\<rparr>\<rparr>) \<and>
   LoadConfig exampleObservability noFiles
      ((''TASKER_CRON.BATCH_SIZE'', []) # (''TASKER_SERVER.PORT'', ''8080'') #
       (''TASKER_DATABASE.NAME'', ''tasker'') # exampleEnviron)
     = Inr (exampleConfig
         \<lparr>Observability := Some \<lparr>ServiceName = ''tasker'', Environment = ''local'', settings = ()\<rparr>,
          Cron := Some \<lparr>ArchiveDaysThreshold = 0, BatchSize = 0, ReminderHours = 0,
                        MaxTodosPerUserNotification = 0\<rparr>\<rparr>) \<and>
   \<lparr>ArchiveDaysThreshold = 0, BatchSize = 0, ReminderHours = 0,
     MaxTodosPerUserNotification = 0\<rparr> \<noteq> DefaultCronConfig"
  by code_simp

text \<open>
  C4, amended: an optional section is replaced by the whole built-in default exactly
  when its pointer is nil after population, which is exactly when the collected map has
  no key for the section. A section that is present is kept as it was decoded from the
  map under its key (with the two observability fields overwritten): a field of the cron
  section that was not supplied stays zero, it is not taken from the default. From the
  environment as the override files leave it, with ASCII names under the prefix: when no
  variable under the prefix names the section in its key path, the returned section is
  the default; when the key path of some variable begins with the name of the section,
  the returned section is the one decoded from the map under that key.
\<close>

theorem optional_sections_defaulted_whole:
  "(finishConfig obs c = Inr c' \<longrightarrow>
      Cron c' = (case Cron c of None \<Rightarrow> Some DefaultCronConfig | Some cr \<Rightarrow> Some cr) \<and>
      Observability c' =
        Some ((case Observability c of None \<Rightarrow> DefaultObservabilityConfig obs | Some ob \<Rightarrow> ob)
                \<lparr>ServiceName := ''tasker'', Environment := Env (Primary c)\<rparr>)) \<and>
   (Unmarshal obs m = Inr c \<longrightarrow>
      (Cron c = None \<longleftrightarrow> map_of m ''cron'' = None) \<and>
      (Observability c = None \<longleftrightarrow> map_of m ''observability'' = None) \<and>
      (\<forall>sub. map_of m ''cron'' = Some (Map sub) \<longrightarrow>
         Cron c = Some (snd (decodeCronConfig sub)) \<and>
         (map_of sub ''archive_days_threshold'' = None \<longrightarrow>
            ArchiveDaysThreshold (snd (decodeCronConfig sub)) = 0) \<and>
         (map_of sub ''batch_size'' = None \<longrightarrow> BatchSize (snd (decodeCronConfig sub)) = 0) \<and>
         (map_of sub ''reminder_hours'' = None \<longrightarrow>
            ReminderHours (snd (decodeCronConfig sub)) = 0) \<and>
         (map_of sub ''max_todos_per_user_notification'' = None \<longrightarrow>
            MaxTodosPerUserNotification (snd (decodeCronConfig sub)) = 0)) \<and>
      (\<forall>sub. map_of m ''observability'' = Some (Map sub) \<longrightarrow>
         Observability c = Some (snd (decode obs sub)))) \<and>
   (Unmarshal obs m = Inr c \<and> map_of m ''cron'' = None \<and> finishConfig obs c = Inr c'
      \<longrightarrow> Cron c' = Some DefaultCronConfig) \<and>
   ((\<forall>(name, val) \<in> set env.
        CHR ''='' \<notin> set name \<and> (HasPrefix name ''TASKER_'' \<longrightarrow> isASCII name)) \<and>
    env = loadDotEnvFiles fs environ [''.env'', ''apps/backend/.env''] \<and>
    LoadConfig obs fs environ = Inr l \<longrightarrow>
      ((\<forall>(name, val) \<in> set env.
          HasPrefix name ''TASKER_'' \<longrightarrow> ''cron'' \<notin> set (Split (envKey name) (CHR ''.'')))
        \<longrightarrow> Cron l = Some DefaultCronConfig) \<and>
      ((\<forall>(name, val) \<in> set env.
          HasPrefix name ''TASKER_'' \<longrightarrow> ''observability'' \<notin> set (Split (envKey name) (CHR ''.'')))
        \<longrightarrow> Observability l =
              Some ((DefaultObservabilityConfig obs)
                      \<lparr>ServiceName := ''tasker'', Environment := Env (Primary l)\<rparr>)) \<and>
      ((\<exists>(name, val) \<in> set env.
          HasPrefix name ''TASKER_'' \<and> hd (Split (envKey name) (CHR ''.'')) = ''cron'')
        \<longrightarrow> (\<exists>sub. map_of (Read ''TASKER_'' (CHR ''.'') envKey env) ''cron'' = Some (Map sub) \<and>
                Cron l = Some (snd (decodeCronConfig sub)))) \<and>
      ((\<exists>(name, val) \<in> set env.
          HasPrefix name ''TASKER_'' \<and> hd (Split (envKey name) (CHR ''.'')) = ''observability'')
        \<longrightarrow> (\<exists>sub. map_of (Read ''TASKER_'' (CHR ''.'') envKey env) ''observability''
                  = Some (Map sub) \<and>
                Observability l =
                  Some ((snd (decode obs sub))
                          \<lparr>ServiceName := ''tasker'', Environment := Env (Primary l)\<rparr>))))"
proof -
  have a: "Cron c' = (case Cron c of None \<Rightarrow> Some DefaultCronConfig | Some cr \<Rightarrow> Some cr) \<and>
      Observability c' =
        Some ((case Observability c of None \<Rightarrow> DefaultObservabilityConfig obs | Some ob \<Rightarrow> ob)
                \<lparr>ServiceName := ''tasker'', Environment := Env (Primary c)\<rparr>)"
    if f: "finishConfig obs c = Inr c'" for c c' :: "'a Config"
  proof -
    from finishConfig_Inr [OF f] have "c' = defaultCron (normalizeRedis (c\<lparr>Observability :=
            Some ((case Observability c of None \<Rightarrow> DefaultObservabilityConfig obs | Some ob \<Rightarrow> ob)
               \<lparr>ServiceName := ''tasker'', Environment := Env (Primary c)\<rparr>)\<rparr>))"
      by blast
    then show ?thesis by (simp add: defaultCron_fields normalizeRedis_fields)
  qed
  have b1: "Cron c = None \<longleftrightarrow> map_of m ''cron'' = None"
    if u: "Unmarshal obs m = Inr c" for m and c :: "'a Config"
    using Unmarshal_Inr(1,5) [OF u] by (simp add: decodePtr_None_iff)
  have b2: "Observability c = None \<longleftrightarrow> map_of m ''observability'' = None"
    if u: "Unmarshal obs m = Inr c" for m and c :: "'a Config"
    using Unmarshal_Inr(2,6) [OF u] by (simp add: decodePtr_None_iff)
  have b3: "Cron c = Some (snd (decodeCronConfig sub)) \<and>
         (map_of sub ''archive_days_threshold'' = None \<longrightarrow>
            ArchiveDaysThreshold (snd (decodeCronConfig sub)) = 0) \<and>
         (map_of sub ''batch_size'' = None \<longrightarrow> BatchSize (snd (decodeCronConfig sub)) = 0) \<and>
         (map_of sub ''reminder_hours'' = None \<longrightarrow>
            ReminderHours (snd (decodeCronConfig sub)) = 0) \<and>
         (map_of sub ''max_todos_per_user_notification'' = None \<longrightarrow>
            MaxTodosPerUserNotification (snd (decodeCronConfig sub)) = 0)"
    if u: "Unmarshal obs m = Inr c" and s: "map_of m ''cron'' = Some (Map sub)"
    for m sub and c :: "'a Config"
    using cron_fields(1) [OF s u] decodeCronConfig_absent [of sub] by blast
  have b4: "Observability c = Some (snd (decode obs sub))"
    if u: "Unmarshal obs m = Inr c" and s: "map_of m ''observability'' = Some (Map sub)"
    for m sub and c :: "'a Config"
    using s u by (rule observability_section)
  have d: "Cron c' = Some DefaultCronConfig"
    if u: "Unmarshal obs m = Inr c" and n: "map_of m ''cron'' = None"
      and f: "finishConfig obs c = Inr c'" for m and c c' :: "'a Config"
  proof -
    from b1 [OF u] n have "Cron c = None" by simp
    with a [OF f] show ?thesis by simp
  qed
  have e: "((\<forall>(name, val) \<in> set env.
          HasPrefix name ''TASKER_'' \<longrightarrow> ''cron'' \<notin> set (Split (envKey name) (CHR ''.'')))
        \<longrightarrow> Cron l = Some DefaultCronConfig) \<and>
      ((\<forall>(name, val) \<in> set env.
          HasPrefix name ''TASKER_'' \<longrightarrow> ''observability'' \<notin> set (Split (envKey name) (CHR ''.'')))
        \<longrightarrow> Observability l =
              Some ((DefaultObservabilityConfig obs)
                      \<lparr>ServiceName := ''tasker'', Environment := Env (Primary l)\<rparr>)) \<and>
      ((\<exists>(name, val) \<in> set env.
          HasPrefix name ''TASKER_'' \<and> hd (Split (envKey name) (CHR ''.'')) = ''cron'')
        \<longrightarrow> (\<exists>sub. map_of (Read ''TASKER_'' (CHR ''.'') envKey env) ''cron'' = Some (Map sub) \<and>
                Cron l = Some (snd (decodeCronConfig sub)))) \<and>
      ((\<exists>(name, val) \<in> set env.
          HasPrefix name ''TASKER_'' \<and> hd (Split (envKey name) (CHR ''.'')) = ''observability'')
        \<longrightarrow> (\<exists>sub. map_of (Read ''TASKER_'' (CHR ''.'') envKey env) ''observability''
                  = Some (Map sub) \<and>
                Observability l =
                  Some ((snd (decode obs sub))
                          \<lparr>ServiceName := ''tasker'', Environment := Env (Primary l)\<rparr>)))"
    if wf: "\<forall>(name, val) \<in> set env.
        CHR ''='' \<notin> set name \<and> (HasPrefix name ''TASKER_'' \<longrightarrow> isASCII name)"
      and le: "env = loadDotEnvFiles fs environ [''.env'', ''apps/backend/.env'']"
      and lc: "LoadConfig obs fs environ = Inr l"
  proof -
    define k where "k = Read ''TASKER_'' (CHR ''.'') envKey env"
    from wf have eq: "\<forall>(name, val) \<in> set env. CHR ''='' \<notin> set name" by auto
    have np: "CHR ''='' \<notin> set ''TASKER_''" by simp
    from lc obtain c0 where un: "Unmarshal obs k = Inr c0" and fc: "finishConfig obs c0 = Inr l"
      unfolding k_def le using LoadConfig_Inr by blast
    note al = a [OF fc]
    have pe: "Env (Primary l) = Env (Primary c0)"
      using finishConfig_sections(1) [OF fc] by simp
    have present: "\<exists>sub. map_of k n = Some (Map sub)"
      if ex: "\<exists>(name, val) \<in> set env.
          HasPrefix name ''TASKER_'' \<and> hd (Split (envKey name) (CHR ''.'')) = n"
        and ok: "fst (decodePtr n dec (map_of k n)) = []" and nn: "n \<noteq> []"
      for n and dec :: "(string \<times> conf) list \<Rightarrow> string list \<times> 'b"
    proof -
      from ex obtain name val where m: "(name, val) \<in> set env"
        and hp: "HasPrefix name ''TASKER_''" and h: "hd (Split (envKey name) (CHR ''.'')) = n"
        by auto
      from h nn have ne: "envKey name \<noteq> []" by auto
      from eq np m hp ne
      have "map_of (Read ''TASKER_'' (CHR ''.'') envKey env) (hd (Split (envKey name) (CHR ''.'')))
          \<noteq> None"
        by (rule Read_present)
      then have "map_of k n \<noteq> None" unfolding k_def h .
      with ok show ?thesis by (rule decodePtr_Inr_Map)
    qed
    show ?thesis
    proof (intro conjI impI)
      assume no: "\<forall>(name, val) \<in> set env.
          HasPrefix name ''TASKER_'' \<longrightarrow> ''cron'' \<notin> set (Split (envKey name) (CHR ''.''))"
      from eq np no have "map_of k ''cron'' = None" unfolding k_def by (rule Read_absent)
      with un fc show "Cron l = Some DefaultCronConfig" using d by blast
    next
      assume no: "\<forall>(name, val) \<in> set env.
          HasPrefix name ''TASKER_'' \<longrightarrow> ''observability'' \<notin> set (Split (envKey name) (CHR ''.''))"
      from eq np no have "map_of k ''observability'' = None" unfolding k_def by (rule Read_absent)
      with b2 [OF un] have "Observability c0 = None" by simp
      with al show "Observability l =
              Some ((DefaultObservabilityConfig obs)
                      \<lparr>ServiceName := ''tasker'', Environment := Env (Primary l)\<rparr>)"
        unfolding pe by simp
    next
      assume "\<exists>(name, val) \<in> set env.
          HasPrefix name ''TASKER_'' \<and> hd (Split (envKey name) (CHR ''.'')) = ''cron''"
      then have "\<exists>sub. map_of k ''cron'' = Some (Map sub)"
        using Unmarshal_Inr(5) [OF un] by (rule present) simp
      then obtain sub where s: "map_of k ''cron'' = Some (Map sub)" ..
      from b3 [OF un s] have "Cron c0 = Some (snd (decodeCronConfig sub))" by (rule conjunct1)
      with al have "Cron l = Some (snd (decodeCronConfig sub))" by simp
      with s show "\<exists>sub. map_of (Read ''TASKER_'' (CHR ''.'') envKey env) ''cron'' = Some (Map sub) \<and>
                Cron l = Some (snd (decodeCronConfig sub))"
        unfolding k_def by blast
    next
      assume "\<exists>(name, val) \<in> set env.
          HasPrefix name ''TASKER_'' \<and> hd (Split (envKey name) (CHR ''.'')) = ''observability''"
      then have "\<exists>sub. map_of k ''observability'' = Some (Map sub)"
        using Unmarshal_Inr(6) [OF un] by (rule present) simp
      then obtain sub where s: "map_of k ''observability'' = Some (Map sub)" ..
      from b4 [OF un s] al have "Observability l =
                  Some ((snd (decode obs sub))
                          \<lparr>ServiceName := ''tasker'', Environment := Env (Primary l)\<rparr>)"
        unfolding pe by simp
      with s show "\<exists>sub. map_of (Read ''TASKER_'' (CHR ''.'') envKey env) ''observability''
                  = Some (Map sub) \<and>
                Observability l =
                  Some ((snd (decode obs sub))
                          \<lparr>ServiceName := ''tasker'', Environment := Env (Primary l)\<rparr>)"
        unfolding k_def by blast
    qed
  qed
  show ?thesis
  proof (intro conjI impI allI)
    assume "finishConfig obs c = Inr c'"
    then show "Cron c' = (case Cron c of None \<Rightarrow> Some DefaultCronConfig | Some cr \<Rightarrow> Some cr)"
      using a by (rule_tac conjunct1)
  next
    assume "finishConfig obs c = Inr c'"
    then show "Observability c' =
        Some ((case Observability c of None \<Rightarrow> DefaultObservabilityConfig obs | Some ob \<Rightarrow> ob)
                \<lparr>ServiceName := ''tasker'', Environment := Env (Primary c)\<rparr>)"
      using a by (rule_tac conjunct2)
  next
    assume "Unmarshal obs m = Inr c"
    then show "Cron c = None \<longleftrightarrow> map_of m ''cron'' = None" by (rule b1)
  next
    assume "Unmarshal obs m = Inr c"
    then show "Observability c = None \<longleftrightarrow> map_of m ''observability'' = None" by (rule b2)
  next
    fix sub
    assume u: "Unmarshal obs m = Inr c" and s: "map_of m ''cron'' = Some (Map sub)"
    from b3 [OF u s] show "Cron c = Some (snd (decodeCronConfig sub))" by (rule conjunct1)
    {
      assume "map_of sub ''archive_days_threshold'' = None"
      with b3 [OF u s] show "ArchiveDaysThreshold (snd (decodeCronConfig sub)) = 0" by blast
    }
    {
      assume "map_of sub ''batch_size'' = None"
      with b3 [OF u s] show "BatchSize (snd (decodeCronConfig sub)) = 0" by blast
    }
    {
      assume "map_of sub ''reminder_hours'' = None"
      with b3 [OF u s] show "ReminderHours (snd (decodeCronConfig sub)) = 0" by blast
    }
    {
      assume "map_of sub ''max_todos_per_user_notification'' = None"
      with b3 [OF u s] show "MaxTodosPerUserNotification (snd (decodeCronConfig sub)) = 0" by blast
    }
  next
    fix sub
    assume "Unmarshal obs m = Inr c" and "map_of m ''observability'' = Some (Map sub)"
    then show "Observability c = Some (snd (decode obs sub))" by (rule b4)
  next
    assume "Unmarshal obs m = Inr c \<and> map_of m ''cron'' = None \<and> finishConfig obs c = Inr c'"
    then show "Cron c' = Some DefaultCronConfig" using d by blast
  next
    assume h: "(\<forall>(name, val) \<in> set env.
        CHR ''='' \<notin> set name \<and> (HasPrefix name ''TASKER_'' \<longrightarrow> isASCII name)) \<and>
      env = loadDotEnvFiles fs environ [''.env'', ''apps/backend/.env''] \<and>
      LoadConfig obs fs environ = Inr l"
    then have wf: "\<forall>(name, val) \<in> set env.
        CHR ''='' \<notin> set name \<and> (HasPrefix name ''TASKER_'' \<longrightarrow> isASCII name)"
      and le: "env = loadDotEnvFiles fs environ [''.env'', ''apps/backend/.env'']"
      and lc: "LoadConfig obs fs environ = Inr l"
      by blast+
    note r = e [OF wf le lc]
    {
      assume "\<forall>(name, val) \<in> set env.
          HasPrefix name ''TASKER_'' \<longrightarrow> ''cron'' \<notin> set (Split (envKey name) (CHR ''.''))"
      with r show "Cron l = Some DefaultCronConfig" by blast
    }
    {
      assume "\<forall>(name, val) \<in> set env.
          HasPrefix name ''TASKER_'' \<longrightarrow> ''observability'' \<notin> set (Split (envKey name) (CHR ''.''))"
      with r show "Observability l =
              Some ((DefaultObservabilityConfig obs)
                      \<lparr>ServiceName := ''tasker'', Environment := Env (Primary l)\<rparr>)"
        by blast
    }
    {
      assume "\<exists>(name, val) \<in> set env.
          HasPrefix name ''TASKER_'' \<and> hd (Split (envKey name) (CHR ''.'')) = ''cron''"
      with r show "\<exists>sub. map_of (Read ''TASKER_'' (CHR ''.'') envKey env) ''cron'' = Some (Map sub) \<and>
                Cron l = Some (snd (decodeCronConfig sub))"
        by blast
    }
    {
      assume "\<exists>(name, val) \<in> set env.
          HasPrefix name ''TASKER_'' \<and> hd (Split (envKey name) (CHR ''.'')) = ''observability''"
      with r show "\<exists>sub. map_of (Read ''TASKER_'' (CHR ''.'') envKey env) ''observability''
                  = Some (Map sub) \<and>
                Observability l =
                  Some ((snd (decode obs sub))
                          \<lparr>ServiceName := ''tasker'', Environment := Env (Primary l)\<rparr>)"
        by blast
    }
  qed
qed

theorem optional_sections_defaulted_whole_witness:
  "(\<exists>c'. finishConfig exampleObservability exampleConfig = Inr c' \<and>
      Cron c' = Some \<lparr>ArchiveDaysThreshold = 0, BatchSize = 50, ReminderHours = 0,
                      MaxTodosPerUserNotification = 0\<rparr>) \<and>
   (\<exists>c'. finishConfig exampleObservability (exampleConfig\<lparr>Observability := None, Cron := None\<rparr>)
          = Inr c' \<and>
      Cron c' = Some DefaultCronConfig \<and>
      Observability c' = Some \<lparr>ServiceName = ''tasker'', Environment = ''local'', settings = ()\<rparr>) \<and>
   (\<exists>c. Unmarshal exampleObservability (Read ''TASKER_'' (CHR ''.'') envKey
            ((''TASKER_CRON.BATCH_SIZE'', ''50'') # (''TASKER_SERVER.PORT'', ''8080'') #
             (''TASKER_DATABASE.NAME'', ''tasker'') # exampleEnviron)) = Inr c \<and>
      Observability c = None \<and>
      (\<exists>cr. Cron c = Some cr \<and> ReminderHours cr = 0)) \<and>
   (\<exists>l. LoadConfig exampleObservability noFiles
            ((''TASKER_SERVER.PORT'', ''8080'') # (''TASKER_DATABASE.NAME'', ''tasker'') # exampleEnviron)
          = Inr l \<and>
      Cron l = Some DefaultCronConfig \<and>
      Observability l = Some \<lparr>ServiceName = ''tasker'', Environment = ''local'', settings = ()\<rparr>) \<and>
   (\<exists>l. LoadConfig exampleObservability noFiles
            ((''TASKER_CRON.BATCH_SIZE'', ''50'') # (''TASKER_SERVER.PORT'', ''8080'') #
             (''TASKER_DATABASE.NAME'', ''tasker'') # exampleEnviron)
          = Inr l \<and>
      Cron l = Some \<lparr>ArchiveDaysThreshold = 0, BatchSize = 50, ReminderHours = 0,
                     MaxTodosPerUserNotification = 0\<rparr>)"
proof -
  let ?ob = "Some \<lparr>ServiceName = ''tasker'', Environment = ''local'', settings = ()\<rparr>"
  let ?partial = "\<lparr>ArchiveDaysThreshold = 0, BatchSize = 50, ReminderHours = 0,
                   MaxTodosPerUserNotification = 0\<rparr>"
  let ?c1 = "exampleConfig\<lparr>Observability := ?ob\<rparr>"
  let ?c2 = "exampleConfig\<lparr>Observability := ?ob, Cron := Some DefaultCronConfig\<rparr>"
  let ?env0 = "(''TASKER_SERVER.PORT'', ''8080'') # (''TASKER_DATABASE.NAME'', ''tasker'') # exampleEnviron"
  let ?env1 = "(''TASKER_CRON.BATCH_SIZE'', ''50'') # ?env0"
  let ?u = "exampleConfig\<lparr>Redis := \<lparr>Address = ''redis://cache:6379'', RedisConfig.Password = []\<rparr>,
              Observability := None, Cron := Some ?partial\<rparr>"
  let ?sub = "[(''batch_size'', Str ''50'')]"
  have f1: "finishConfig exampleObservability exampleConfig = Inr ?c1"
    by code_simp
  have f2: "finishConfig exampleObservability (exampleConfig\<lparr>Observability := None, Cron := None\<rparr>)
      = Inr ?c2"
    by code_simp
  have c1: "Cron exampleConfig = Some ?partial"
    by (simp add: exampleConfig_def)
  have g1: "Cron ?c1 = Some ?partial"
  proof -
    note t = optional_sections_defaulted_whole
      [where obs = exampleObservability and c = exampleConfig and c' = ?c1,
        THEN conjunct1, THEN mp, OF f1, THEN conjunct1]
    from t c1 show ?thesis by simp
  qed
  have g2: "Cron ?c2 = Some DefaultCronConfig \<and> Observability ?c2 = ?ob"
  proof -
    note t = optional_sections_defaulted_whole
      [where obs = exampleObservability
        and c = "exampleConfig\<lparr>Observability := None, Cron := None\<rparr>" and c' = ?c2,
        THEN conjunct1, THEN mp, OF f2]
    have d: "DefaultObservabilityConfig exampleObservability
        \<lparr>ServiceName := ''tasker'',
         Environment := Env (Primary (exampleConfig\<lparr>Observability := None, Cron := None\<rparr>))\<rparr>
       = \<lparr>ServiceName = ''tasker'', Environment = ''local'', settings = ()\<rparr>"
      by (simp add: exampleObservability_def exampleConfig_def)
    from t [THEN conjunct1] have a: "Cron ?c2 = Some DefaultCronConfig" by simp
    from t [THEN conjunct2] have b: "Observability ?c2 = ?ob" unfolding d by simp
    from a b show ?thesis by (rule conjI)
  qed
  have u: "Unmarshal exampleObservability (Read ''TASKER_'' (CHR ''.'') envKey ?env1) = Inr ?u"
    by code_simp
  have s: "map_of (Read ''TASKER_'' (CHR ''.'') envKey ?env1) ''cron'' = Some (Map ?sub)"
    by code_simp
  have g3: "Observability ?u = None \<and> (\<exists>cr. Cron ?u = Some cr \<and> ReminderHours cr = 0)"
  proof -
    note t = optional_sections_defaulted_whole
      [where obs = exampleObservability and c = ?u
        and m = "Read ''TASKER_'' (CHR ''.'') envKey ?env1",
        THEN conjunct2, THEN conjunct1, THEN mp, OF u]
    have no: "map_of (Read ''TASKER_'' (CHR ''.'') envKey ?env1) ''observability'' = None"
      by code_simp
    have nr: "map_of ?sub ''reminder_hours'' = None" by simp
    from t [THEN conjunct2, THEN conjunct1] no have a: "Observability ?u = None" by (rule iffD2)
    from t [THEN conjunct2, THEN conjunct2, THEN conjunct1] s
    have "Cron ?u = Some (snd (decodeCronConfig ?sub)) \<and>
         (map_of ?sub ''archive_days_threshold'' = None \<longrightarrow>
            ArchiveDaysThreshold (snd (decodeCronConfig ?sub)) = 0) \<and>
         (map_of ?sub ''batch_size'' = None \<longrightarrow> BatchSize (snd (decodeCronConfig ?sub)) = 0) \<and>
         (map_of ?sub ''reminder_hours'' = None \<longrightarrow>
            ReminderHours (snd (decodeCronConfig ?sub)) = 0) \<and>
         (map_of ?sub ''max_todos_per_user_notification'' = None \<longrightarrow>
            MaxTodosPerUserNotification (snd (decodeCronConfig ?sub)) = 0)"
      by blast
    with nr have "Cron ?u = Some (snd (decodeCronConfig ?sub)) \<and>
        ReminderHours (snd (decodeCronConfig ?sub)) = 0"
      by blast
    with a show ?thesis by blast
  qed
  have l0: "LoadConfig exampleObservability noFiles ?env0 = Inr ?c2" by code_simp
  have l1: "LoadConfig exampleObservability noFiles ?env1 = Inr ?c1" by code_simp
  have wf0: "\<forall>(name, val) \<in> set ?env0.
        CHR ''='' \<notin> set name \<and> (HasPrefix name ''TASKER_'' \<longrightarrow> isASCII name)"
    by code_simp
  have wf1: "\<forall>(name, val) \<in> set ?env1.
        CHR ''='' \<notin> set name \<and> (HasPrefix name ''TASKER_'' \<longrightarrow> isASCII name)"
    by code_simp
  have e0: "?env0 = loadDotEnvFiles noFiles ?env0 [''.env'', ''apps/backend/.env'']"
    by (simp add: noFiles_def)
  have e1: "?env1 = loadDotEnvFiles noFiles ?env1 [''.env'', ''apps/backend/.env'']"
    by (simp add: noFiles_def)
  have g4: "Cron ?c2 = Some DefaultCronConfig \<and> Observability ?c2 = ?ob"
  proof -
    from wf0 e0 l0 have h: "(\<forall>(name, val) \<in> set ?env0.
        CHR ''='' \<notin> set name \<and> (HasPrefix name ''TASKER_'' \<longrightarrow> isASCII name)) \<and>
      ?env0 = loadDotEnvFiles noFiles ?env0 [''.env'', ''apps/backend/.env''] \<and>
      LoadConfig exampleObservability noFiles ?env0 = Inr ?c2"
      by (intro conjI)
    note t = optional_sections_defaulted_whole
      [where obs = exampleObservability and env = ?env0 and fs = noFiles and environ = ?env0
        and l = ?c2, THEN conjunct2, THEN conjunct2, THEN conjunct2, THEN mp, OF h]
    have n1: "\<forall>(name, val) \<in> set ?env0.
          HasPrefix name ''TASKER_'' \<longrightarrow> ''cron'' \<notin> set (Split (envKey name) (CHR ''.''))"
      by code_simp
    have n2: "\<forall>(name, val) \<in> set ?env0.
          HasPrefix name ''TASKER_'' \<longrightarrow> ''observability'' \<notin> set (Split (envKey name) (CHR ''.''))"
      by code_simp
    have d: "DefaultObservabilityConfig exampleObservability
        \<lparr>ServiceName := ''tasker'', Environment := Env (Primary ?c2)\<rparr>
       = \<lparr>ServiceName = ''tasker'', Environment = ''local'', settings = ()\<rparr>"
      by (simp add: exampleObservability_def exampleConfig_def)
    from t [THEN conjunct1] n1 have a: "Cron ?c2 = Some DefaultCronConfig" by (rule mp)
    from t [THEN conjunct2, THEN conjunct1] n2 have b: "Observability ?c2 = ?ob"
      unfolding d by (rule mp)
    from a b show ?thesis by (rule conjI)
  qed
  have g5: "Cron ?c1 = Some ?partial"
  proof -
    from wf1 e1 l1 have h: "(\<forall>(name, val) \<in> set ?env1.
        CHR ''='' \<notin> set name \<and> (HasPrefix name ''TASKER_'' \<longrightarrow> isASCII name)) \<and>
      ?env1 = loadDotEnvFiles noFiles ?env1 [''.env'', ''apps/backend/.env''] \<and>
      LoadConfig exampleObservability noFiles ?env1 = Inr ?c1"
      by (intro conjI)
    note t = optional_sections_defaulted_whole
      [where obs = exampleObservability and env = ?env1 and fs = noFiles and environ = ?env1
        and l = ?c1, THEN conjunct2, THEN conjunct2, THEN conjunct2, THEN mp, OF h]
    have p: "\<exists>(name, val) \<in> set ?env1.
          HasPrefix name ''TASKER_'' \<and> hd (Split (envKey name) (CHR ''.'')) = ''cron''"
      by code_simp
    have dc: "snd (decodeCronConfig ?sub) = ?partial" by code_simp
    from t [THEN conjunct2, THEN conjunct2, THEN conjunct1] p
    have "\<exists>sub. map_of (Read ''TASKER_'' (CHR ''.'') envKey ?env1) ''cron'' = Some (Map sub) \<and>
                Cron ?c1 = Some (snd (decodeCronConfig sub))"
      by (rule mp)
    with s have "Cron ?c1 = Some (snd (decodeCronConfig ?sub))" by auto
    then show ?thesis unfolding dc .
  qed
  from f1 g1 have r1: "\<exists>c'. finishConfig exampleObservability exampleConfig = Inr c' \<and>
      Cron c' = Some ?partial"
    by blast
  from f2 g2 have r2: "\<exists>c'. finishConfig exampleObservability
        (exampleConfig\<lparr>Observability := None, Cron := None\<rparr>) = Inr c' \<and>
      Cron c' = Some DefaultCronConfig \<and> Observability c' = ?ob"
    by blast
  from u g3 have r3: "\<exists>c. Unmarshal exampleObservability (Read ''TASKER_'' (CHR ''.'') envKey ?env1)
        = Inr c \<and>
      Observability c = None \<and> (\<exists>cr. Cron c = Some cr \<and> ReminderHours cr = 0)"
    by blast
  from l0 g4 have r4: "\<exists>l. LoadConfig exampleObservability noFiles ?env0 = Inr l \<and>
      Cron l = Some DefaultCronConfig \<and> Observability l = ?ob"
    by blast
  from l1 g5 have r5: "\<exists>l. LoadConfig exampleObservability noFiles ?env1 = Inr l \<and>
      Cron l = Some ?partial"
    by blast
  from r1 r2 r3 r4 r5 show ?thesis by (intro conjI)
qed

text \<open>
  C5: whenever \<open>LoadConfig\<close> returns a configuration, its observability section is
  present, its service name is \<open>tasker\<close> and its environment is the environment of the
  primary section, whatever the section held after population.
\<close>

theorem observability_identity_overwritten:
  "(finishConfig obs c = Inr c' \<longrightarrow>
      (\<exists>ob. Observability c' = Some ob \<and> ServiceName ob = ''tasker'' \<and>
            Environment ob = Env (Primary c) \<and> Primary c' = Primary c)) \<and>
   (LoadConfig obs fs environ = Inr c' \<longrightarrow>
      (\<exists>ob. Observability c' = Some ob \<and> ServiceName ob = ''tasker'' \<and>
            Environment ob = Env (Primary c')))"
proof -
  have a: "\<exists>ob. Observability c' = Some ob \<and> ServiceName ob = ''tasker'' \<and>
            Environment ob = Env (Primary c) \<and> Primary c' = Primary c"
    if "finishConfig obs c = Inr c'" for c
  proof -
    from that have "c' = defaultCron (normalizeRedis (c\<lparr>Observability :=
            Some ((case Observability c of None \<Rightarrow> DefaultObservabilityConfig obs | Some ob \<Rightarrow> ob)
               \<lparr>ServiceName := ''tasker'', Environment := Env (Primary c)\<rparr>)\<rparr>))"
      using finishConfig_Inr by blast
    then show ?thesis by (simp add: defaultCron_fields normalizeRedis_fields)
  qed
  have b: "\<exists>ob. Observability c' = Some ob \<and> ServiceName ob = ''tasker'' \<and>
            Environment ob = Env (Primary c')"
    if "LoadConfig obs fs environ = Inr c'"
  proof -
    from that obtain c where "finishConfig obs c = Inr c'"
      using LoadConfig_Inr by blast
    from a [OF this] show ?thesis by auto
  qed
  from a b show ?thesis by blast
qed

theorem observability_identity_overwritten_witness:
  "Observability exampleConfig
     = Some \<lparr>ServiceName = ''other'', Environment = ''production'', settings = ()\<rparr> \<and>
   (\<exists>c' ob. finishConfig exampleObservability exampleConfig = Inr c' \<and>
      Observability c' = Some ob \<and> ServiceName ob = ''tasker'' \<and> Environment ob = ''local'')"
proof -
  have f: "finishConfig exampleObservability exampleConfig
      = Inr (exampleConfig\<lparr>Observability :=
               Some \<lparr>ServiceName = ''tasker'', Environment = ''local'', settings = ()\<rparr>\<rparr>)"
    by code_simp
  have e: "Env (Primary exampleConfig) = ''local''" by code_simp
  have o: "Observability exampleConfig
     = Some \<lparr>ServiceName = ''other'', Environment = ''production'', settings = ()\<rparr>"
    by code_simp
  from observability_identity_overwritten
    [of exampleObservability exampleConfig
        "exampleConfig\<lparr>Observability :=
               Some \<lparr>ServiceName = ''tasker'', Environment = ''local'', settings = ()\<rparr>\<rparr>"]
    f e o show ?thesis by auto
qed



text \<open>
  C7: a line that, trimmed, is no comment and reads \<open>k=v\<close> with no \<open>=\<close> in \<open>k\<close> sets the
  trimmed \<open>k\<close> to the trimmed \<open>v\<close>, without its first and last byte when these are the
  same kind of quote: the split is at the first \<open>=\<close>, one pair of quotes is removed and
  the inside is left alone. Where \<open>os.Setenv\<close> accepts the pair, the environment then
  holds the value under the key. The line \<open>KEY="quoted value"\<close> sets \<open>KEY\<close> to
  \<open>quoted value\<close>.
\<close>

theorem dotenv_line:
  "(\<forall>text k v.
      TrimSpace text = k @ CHR ''='' # v \<and> CHR ''='' \<notin> set k \<and> \<not> HasPrefix (TrimSpace text) ''#''
      \<longrightarrow> (\<exists>val. parseLine text = Some (TrimSpace k, val) \<and>
             (\<forall>q body. (q = CHR 0x22 \<or> q = CHR 0x27) \<and> TrimSpace v = q # body @ [q]
                \<longrightarrow> val = body) \<and>
             ((\<forall>q body. (q = CHR 0x22 \<or> q = CHR 0x27) \<longrightarrow> TrimSpace v \<noteq> q # body @ [q])
                \<longrightarrow> val = TrimSpace v) \<and>
             (\<forall>env env'. Setenv env (TrimSpace k) val = Inr env' \<longrightarrow>
                loadLines env [text] = env' \<and> Getenv env' (TrimSpace k) = Some val))) \<and>
   parseLine (''KEY='' @ [CHR 0x22] @ ''quoted value'' @ [CHR 0x22]) = Some (''KEY'', ''quoted value'') \<and>
   loadDotEnvFiles
     (\<lambda>p. if p = ''.env'' then Some (''KEY='' @ [CHR 0x22] @ ''quoted value'' @ [CHR 0x22, CHR 0x0A])
          else None)
     [] [''.env''] = [(''KEY'', ''quoted value'')]"
proof -
  have gen: "\<exists>val. parseLine text = Some (TrimSpace k, val) \<and>
     (\<forall>q body. (q = CHR 0x22 \<or> q = CHR 0x27) \<and> TrimSpace v = q # body @ [q] \<longrightarrow> val = body) \<and>
     ((\<forall>q body. (q = CHR 0x22 \<or> q = CHR 0x27) \<longrightarrow> TrimSpace v \<noteq> q # body @ [q])
        \<longrightarrow> val = TrimSpace v) \<and>
     (\<forall>env env'. Setenv env (TrimSpace k) val = Inr env' \<longrightarrow>
        loadLines env [text] = env' \<and> Getenv env' (TrimSpace k) = Some val)"
    if t: "TrimSpace text = k @ CHR ''='' # v" and k: "CHR ''='' \<notin> set k"
      and c: "\<not> HasPrefix (TrimSpace text) ''#''" for "text" k v
  proof -
    let ?val = "if (\<exists>body. TrimSpace v = CHR 0x22 # body @ [CHR 0x22]) \<or>
            (\<exists>body. TrimSpace v = CHR 0x27 # body @ [CHR 0x27])
         then take (length (TrimSpace v) - 1 - 1) (drop 1 (TrimSpace v)) else TrimSpace v"
    have p: "parseLine text = Some (TrimSpace k, ?val)"
      using t k c by (rule parseLine_assign)
    have a: "\<forall>q body. (q = CHR 0x22 \<or> q = CHR 0x27) \<and> TrimSpace v = q # body @ [q] \<longrightarrow> ?val = body"
      by auto
    have b: "(\<forall>q body. (q = CHR 0x22 \<or> q = CHR 0x27) \<longrightarrow> TrimSpace v \<noteq> q # body @ [q])
          \<longrightarrow> ?val = TrimSpace v"
      by auto
    have d: "\<forall>env env'. Setenv env (TrimSpace k) ?val = Inr env' \<longrightarrow>
          loadLines env [text] = env' \<and> Getenv env' (TrimSpace k) = Some ?val"
    proof (intro allI impI)
      fix env env'
      assume s: "Setenv env (TrimSpace k) ?val = Inr env'"
      then have "map_of env' (TrimSpace k) = Some ?val" by (rule Setenv_same)
      moreover have "loadLines env [text] = env'"
        using p s by simp
      ultimately show "loadLines env [text] = env' \<and> Getenv env' (TrimSpace k) = Some ?val"
        by (simp add: Getenv_def)
    qed
    from p a b d show ?thesis by blast
  qed
  have ex1: "parseLine (''KEY='' @ [CHR 0x22] @ ''quoted value'' @ [CHR 0x22])
      = Some (''KEY'', ''quoted value'')"
    by code_simp
  have ex2: "loadDotEnvFiles
     (\<lambda>p. if p = ''.env'' then Some (''KEY='' @ [CHR 0x22] @ ''quoted value'' @ [CHR 0x22, CHR 0x0A])
          else None)
     [] [''.env''] = [(''KEY'', ''quoted value'')]"
    by code_simp
  from gen ex1 ex2 show ?thesis by blast
qed

theorem dotenv_line_witness:
  "parseLine (''  NAME = '' @ [CHR 0x27] @ '' a = b '' @ [CHR 0x27] @ ''  '') = Some (''NAME'', '' a = b '') \<and>
   loadLines [(''NAME'', ''old'')] [''  NAME = '' @ [CHR 0x27] @ '' a = b '' @ [CHR 0x27] @ ''  '']
     = [(''NAME'', '' a = b '')]"
proof -
  let ?text = "''  NAME = '' @ [CHR 0x27] @ '' a = b '' @ [CHR 0x27] @ ''  ''"
  let ?k = "''NAME ''"
  let ?v = "'' '' @ [CHR 0x27] @ '' a = b '' @ [CHR 0x27]"
  have h: "TrimSpace ?text = ?k @ CHR ''='' # ?v \<and> CHR ''='' \<notin> set ?k
      \<and> \<not> HasPrefix (TrimSpace ?text) ''#''"
    by code_simp
  have tk: "TrimSpace ?k = ''NAME''" by code_simp
  have tv: "TrimSpace ?v = CHR 0x27 # '' a = b '' @ [CHR 0x27]" by code_simp
  have se: "Setenv [(''NAME'', ''old'')] ''NAME'' '' a = b '' = Inr [(''NAME'', '' a = b '')]"
    by code_simp
  from dotenv_line have "\<forall>text k v.
      TrimSpace text = k @ CHR ''='' # v \<and> CHR ''='' \<notin> set k \<and> \<not> HasPrefix (TrimSpace text) ''#''
      \<longrightarrow> (\<exists>val. parseLine text = Some (TrimSpace k, val) \<and>
             (\<forall>q body. (q = CHR 0x22 \<or> q = CHR 0x27) \<and> TrimSpace v = q # body @ [q]
                \<longrightarrow> val = body) \<and>
             ((\<forall>q body. (q = CHR 0x22 \<or> q = CHR 0x27) \<longrightarrow> TrimSpace v \<noteq> q # body @ [q])
                \<longrightarrow> val = TrimSpace v) \<and>
             (\<forall>env env'. Setenv env (TrimSpace k) val = Inr env' \<longrightarrow>
                loadLines env [text] = env' \<and> Getenv env' (TrimSpace k) = Some val))"
    by (rule conjunct1)
  with h obtain val where p: "parseLine ?text = Some (TrimSpace ?k, val)"
    and q: "\<forall>q body. (q = CHR 0x22 \<or> q = CHR 0x27) \<and> TrimSpace ?v = q # body @ [q] \<longrightarrow> val = body"
    and l: "\<forall>env env'. Setenv env (TrimSpace ?k) val = Inr env' \<longrightarrow>
                loadLines env [?text] = env' \<and> Getenv env' (TrimSpace ?k) = Some val"
    by blast
  from q tv have v: "val = '' a = b ''" by blast
  from l se have "loadLines [(''NAME'', ''old'')] [?text] = [(''NAME'', '' a = b '')]"
    unfolding tk v by blast
  with p show ?thesis unfolding tk v by simp
qed

text \<open>
  C8: a populated configuration whose \<open>Database.Name\<close> is empty does not pass: the
  process ends in \<open>logger.Fatal()\<close> with the validation error, which lists the field path
  \<open>Config.Database.Name\<close>; no configuration is returned. So a configuration that
  \<open>LoadConfig\<close> returns never has an empty database name.
\<close>

theorem missing_database_name_is_fatal:
  "(Name (Database c) = [] \<longrightarrow>
      (\<exists>paths. finishConfig obs c = Inl (ConfigValidationFailed paths) \<and>
               ''Config.Database.Name'' \<in> set paths)) \<and>
   (Unmarshal obs (Read ''TASKER_'' (CHR ''.'') envKey
        (loadDotEnvFiles fs environ [''.env'', ''apps/backend/.env''])) = Inr c \<and>
    Name (Database c) = [] \<longrightarrow>
      (\<exists>paths. LoadConfig obs fs environ = Inl (ConfigValidationFailed paths) \<and>
               ''Config.Database.Name'' \<in> set paths)) \<and>
   (LoadConfig obs fs environ = Inr c' \<longrightarrow> Name (Database c') \<noteq> [])"
proof -
  have a: "\<exists>paths. finishConfig obs c = Inl (ConfigValidationFailed paths) \<and>
               ''Config.Database.Name'' \<in> set paths"
    if n: "Name (Database c) = []" for c :: "'a Config"
  proof -
    from n have m: "''Config.Database.Name'' \<in> set (validateStruct obs c)"
      by (rule validateStruct_database_name)
    then obtain e es where v: "validateStruct obs c = e # es"
      by (cases "validateStruct obs c") auto
    then have "finishConfig obs c = Inl (ConfigValidationFailed (e # es))"
      by (rule finishConfig_invalid)
    with m v show ?thesis by auto
  qed
  have b: "\<exists>paths. LoadConfig obs fs environ = Inl (ConfigValidationFailed paths) \<and>
               ''Config.Database.Name'' \<in> set paths"
    if "Unmarshal obs (Read ''TASKER_'' (CHR ''.'') envKey
        (loadDotEnvFiles fs environ [''.env'', ''apps/backend/.env''])) = Inr c"
      and "Name (Database c) = []"
    using that a by (simp add: LoadConfig_populated)
  have d: "Name (Database c') \<noteq> []" if l: "LoadConfig obs fs environ = Inr c'"
  proof
    assume e: "Name (Database c') = []"
    from l obtain c0 where f: "finishConfig obs c0 = Inr c'"
      using LoadConfig_Inr by blast
    then have "Database c' = Database c0"
      using finishConfig_Inr [OF f] by (simp add: defaultCron_fields normalizeRedis_fields)
    with e have "Name (Database c0) = []" by simp
    from a [OF this] f show False by auto
  qed
  from a b d show ?thesis by blast
qed

theorem missing_database_name_is_fatal_witness:
  "\<exists>paths. LoadConfig exampleObservability (\<lambda>p. None)
              ((''TASKER_SERVER.PORT'', ''8080'') # exampleEnviron)
            = Inl (ConfigValidationFailed paths) \<and>
          ''Config.Database.Name'' \<in> set paths"
proof -
  let ?env = "(''TASKER_SERVER.PORT'', ''8080'') # exampleEnviron"
  let ?c = "exampleConfig\<lparr>Database := (Database exampleConfig)\<lparr>Name := []\<rparr>,
              Redis := (Redis exampleConfig)\<lparr>Address := ''redis://cache:6379''\<rparr>,
              Observability := None, Cron := None\<rparr>"
  have u: "Unmarshal exampleObservability (Read ''TASKER_'' (CHR ''.'') envKey
        (loadDotEnvFiles (\<lambda>p. None) ?env [''.env'', ''apps/backend/.env''])) = Inr ?c"
    by code_simp
  have n: "Name (Database ?c) = []" by simp
  from missing_database_name_is_fatal [of ?c exampleObservability "\<lambda>p. None" ?env] u n
  show ?thesis by blast
qed

text \<open>
  C9: \<open>Database.Password\<close>, \<open>Redis.Password\<close> and \<open>AWS.EndpointURL\<close> carry no \<open>required\<close>
  tag. The validator does not look at them, and a configuration whose other required
  fields are all set passes with the three of them empty.
\<close>

theorem passwords_and_endpoint_not_required:
  "validateStruct obs
      (c\<lparr>Database := (Database c)\<lparr>DatabaseConfig.Password := p1\<rparr>,
         Redis := (Redis c)\<lparr>RedisConfig.Password := p2\<rparr>,
         AWS := (AWS c)\<lparr>EndpointURL := u\<rparr>\<rparr>) = validateStruct obs c \<and>
   (Env (Primary c) \<noteq> [] \<and>
    ServerConfig.Port (Server c) \<noteq> [] \<and> ReadTimeout (Server c) \<noteq> 0 \<and>
    WriteTimeout (Server c) \<noteq> 0 \<and> IdleTimeout (Server c) \<noteq> 0 \<and>
    CORSAllowedOrigins (Server c) \<noteq> None \<and>
    Host (Database c) \<noteq> [] \<and> DatabaseConfig.Port (Database c) \<noteq> 0 \<and>
    User (Database c) \<noteq> [] \<and> Name (Database c) \<noteq> [] \<and> SSLMode (Database c) \<noteq> [] \<and>
    MaxOpenConns (Database c) \<noteq> 0 \<and> MaxIdleConns (Database c) \<noteq> 0 \<and>
    ConnMaxLifetime (Database c) \<noteq> 0 \<and> ConnMaxIdleTime (Database c) \<noteq> 0 \<and>
    SecretKey (Auth c) \<noteq> [] \<and> Address (Redis c) \<noteq> [] \<and>
    ResendAPIKey (Integration c) \<noteq> [] \<and>
    (\<forall>ob. Observability c = Some ob \<longrightarrow> validateTags obs ob = []) \<and>
    Region (AWS c) \<noteq> [] \<and> AccessKeyID (AWS c) \<noteq> [] \<and>
    SecretAccessKey (AWS c) \<noteq> [] \<and> UploadBucket (AWS c) \<noteq> []
    \<longrightarrow> validateStruct obs
          (c\<lparr>Database := (Database c)\<lparr>DatabaseConfig.Password := []\<rparr>,
             Redis := (Redis c)\<lparr>RedisConfig.Password := []\<rparr>,
             AWS := (AWS c)\<lparr>EndpointURL := []\<rparr>\<rparr>) = [])"
proof -
  have indep: "validateStruct obs
      (c\<lparr>Database := (Database c)\<lparr>DatabaseConfig.Password := p1\<rparr>,
         Redis := (Redis c)\<lparr>RedisConfig.Password := p2\<rparr>,
         AWS := (AWS c)\<lparr>EndpointURL := u\<rparr>\<rparr>) = validateStruct obs c" for p1 p2 u
    by (simp add: validateStruct_def)
  have pass: "validateStruct obs c = []"
    if "Env (Primary c) \<noteq> []"
      "ServerConfig.Port (Server c) \<noteq> []" "ReadTimeout (Server c) \<noteq> 0"
      "WriteTimeout (Server c) \<noteq> 0" "IdleTimeout (Server c) \<noteq> 0"
      "CORSAllowedOrigins (Server c) \<noteq> None"
      "Host (Database c) \<noteq> []" "DatabaseConfig.Port (Database c) \<noteq> 0"
      "User (Database c) \<noteq> []" "Name (Database c) \<noteq> []" "SSLMode (Database c) \<noteq> []"
      "MaxOpenConns (Database c) \<noteq> 0" "MaxIdleConns (Database c) \<noteq> 0"
      "ConnMaxLifetime (Database c) \<noteq> 0" "ConnMaxIdleTime (Database c) \<noteq> 0"
      "SecretKey (Auth c) \<noteq> []" "Address (Redis c) \<noteq> []"
      "ResendAPIKey (Integration c) \<noteq> []"
      "\<forall>ob. Observability c = Some ob \<longrightarrow> validateTags obs ob = []"
      "Region (AWS c) \<noteq> []" "AccessKeyID (AWS c) \<noteq> []"
      "SecretAccessKey (AWS c) \<noteq> []" "UploadBucket (AWS c) \<noteq> []"
  proof -
    have o: "(case Observability c of None \<Rightarrow> [] | Some ob \<Rightarrow> validateTags obs ob) = []"
      using that(19) by (cases "Observability c") auto
    show ?thesis
      unfolding validateStruct_def o requiredString_def requiredInt_def requiredSlice_def
      using that by simp
  qed
  show ?thesis
  proof (intro conjI impI)
    show "validateStruct obs
      (c\<lparr>Database := (Database c)\<lparr>DatabaseConfig.Password := p1\<rparr>,
         Redis := (Redis c)\<lparr>RedisConfig.Password := p2\<rparr>,
         AWS := (AWS c)\<lparr>EndpointURL := u\<rparr>\<rparr>) = validateStruct obs c"
      by (rule indep)
  next
    assume h: "Env (Primary c) \<noteq> [] \<and>
      ServerConfig.Port (Server c) \<noteq> [] \<and> ReadTimeout (Server c) \<noteq> 0 \<and>
      WriteTimeout (Server c) \<noteq> 0 \<and> IdleTimeout (Server c) \<noteq> 0 \<and>
      CORSAllowedOrigins (Server c) \<noteq> None \<and>
      Host (Database c) \<noteq> [] \<and> DatabaseConfig.Port (Database c) \<noteq> 0 \<and>
      User (Database c) \<noteq> [] \<and> Name (Database c) \<noteq> [] \<and> SSLMode (Database c) \<noteq> [] \<and>
      MaxOpenConns (Database c) \<noteq> 0 \<and> MaxIdleConns (Database c) \<noteq> 0 \<and>
      ConnMaxLifetime (Database c) \<noteq> 0 \<and> ConnMaxIdleTime (Database c) \<noteq> 0 \<and>
      SecretKey (Auth c) \<noteq> [] \<and> Address (Redis c) \<noteq> [] \<and>
      ResendAPIKey (Integration c) \<noteq> [] \<and>
      (\<forall>ob. Observability c = Some ob \<longrightarrow> validateTags obs ob = []) \<and>
      Region (AWS c) \<noteq> [] \<and> AccessKeyID (AWS c) \<noteq> [] \<and>
      SecretAccessKey (AWS c) \<noteq> [] \<and> UploadBucket (AWS c) \<noteq> []"
    then have "validateStruct obs c = []"
      by (intro pass) simp_all
    then show "validateStruct obs
          (c\<lparr>Database := (Database c)\<lparr>DatabaseConfig.Password := []\<rparr>,
             Redis := (Redis c)\<lparr>RedisConfig.Password := []\<rparr>,
             AWS := (AWS c)\<lparr>EndpointURL := []\<rparr>\<rparr>) = []"
      by (simp only: indep)
  qed
qed

theorem passwords_and_endpoint_not_required_witness:
  "validateStruct exampleObservability
      (exampleConfig\<lparr>Database := (Database exampleConfig)\<lparr>DatabaseConfig.Password := []\<rparr>,
         Redis := (Redis exampleConfig)\<lparr>RedisConfig.Password := []\<rparr>,
         AWS := (AWS exampleConfig)\<lparr>EndpointURL := []\<rparr>\<rparr>) = []"
proof (rule passwords_and_endpoint_not_required
    [where obs = exampleObservability and c = exampleConfig, THEN conjunct2, THEN mp])
  show "Env (Primary exampleConfig) \<noteq> [] \<and>
    ServerConfig.Port (Server exampleConfig) \<noteq> [] \<and> ReadTimeout (Server exampleConfig) \<noteq> 0 \<and>
    WriteTimeout (Server exampleConfig) \<noteq> 0 \<and> IdleTimeout (Server exampleConfig) \<noteq> 0 \<and>
    CORSAllowedOrigins (Server exampleConfig) \<noteq> None \<and>
    Host (Database exampleConfig) \<noteq> [] \<and> DatabaseConfig.Port (Database exampleConfig) \<noteq> 0 \<and>
    User (Database exampleConfig) \<noteq> [] \<and> Name (Database exampleConfig) \<noteq> [] \<and>
    SSLMode (Database exampleConfig) \<noteq> [] \<and>
    MaxOpenConns (Database exampleConfig) \<noteq> 0 \<and> MaxIdleConns (Database exampleConfig) \<noteq> 0 \<and>
    ConnMaxLifetime (Database exampleConfig) \<noteq> 0 \<and>
    ConnMaxIdleTime (Database exampleConfig) \<noteq> 0 \<and>
    SecretKey (Auth exampleConfig) \<noteq> [] \<and> Address (Redis exampleConfig) \<noteq> [] \<and>
    ResendAPIKey (Integration exampleConfig) \<noteq> [] \<and>
    (\<forall>ob. Observability exampleConfig = Some ob \<longrightarrow> validateTags exampleObservability ob = []) \<and>
    Region (AWS exampleConfig) \<noteq> [] \<and> AccessKeyID (AWS exampleConfig) \<noteq> [] \<and>
    SecretAccessKey (AWS exampleConfig) \<noteq> [] \<and> UploadBucket (AWS exampleConfig) \<noteq> []"
    by (simp add: exampleConfig_def exampleObservability_def)
qed



end
